theory Spec2Isabelle
  imports
    Complex_Main
    "HOL-Library.Word"
    "HOL-Library.AList"
    "HOL-Library.Char_ord"
    "HOL-Library.List_Lexorder"
begin

unbundle bit_operations_syntax

section \<open>Strings as encoding/json sees them\<close>

text \<open>
  A Go string is a sequence of bytes; \<open>string\<close> (a list of 8-bit characters) models it.
  \<open>json.Marshal\<close> walks a string rune by rune (\<open>utf8.DecodeRuneInString\<close>): a byte that does
  not start a well-formed UTF-8 sequence is written as the escape of U+FFFD and one byte is
  consumed; every other rune reads back from the JSON text as the bytes it was written from.
  \<open>rune_len\<close> is the length of the well-formed sequence at the head of the string (0 when
  there is none), following the table of the Unicode standard that the Go decoder implements:
  no overlong forms, no surrogates, nothing above U+10FFFF.
\<close>

definition byte_in :: "nat \<Rightarrow> nat \<Rightarrow> char \<Rightarrow> bool" where
  "byte_in lo hi c = (lo \<le> of_char c \<and> (of_char c :: nat) \<le> hi)"

text \<open>
  The decoder is driven by the first byte: it fixes the length of the sequence and the range
  accepted for the second byte; every further byte is a continuation byte.
\<close>

definition lead_size :: "char \<Rightarrow> nat" where
  "lead_size c =
     (if (of_char c :: nat) < 0x80 then 1
      else if byte_in 0xC2 0xDF c then 2
      else if byte_in 0xE0 0xEF c then 3
      else if byte_in 0xF0 0xF4 c then 4
      else 0)"

definition accept_lo :: "char \<Rightarrow> nat" where
  "accept_lo c = (if c = CHR 0xE0 then 0xA0 else if c = CHR 0xF0 then 0x90 else 0x80)"

definition accept_hi :: "char \<Rightarrow> nat" where
  "accept_hi c = (if c = CHR 0xED then 0x9F else if c = CHR 0xF4 then 0x8F else 0xBF)"

fun continuation_ok :: "char \<Rightarrow> string \<Rightarrow> bool" where
  "continuation_ok c [] = True"
| "continuation_ok c (c1 # cs) =
     (byte_in (accept_lo c) (accept_hi c) c1 \<and> list_all (byte_in 0x80 0xBF) cs)"

fun rune_len :: "string \<Rightarrow> nat" where
  "rune_len [] = 0"
| "rune_len (c # cs) =
     (if lead_size c = 0 \<or> length cs < lead_size c - 1
         \<or> \<not> continuation_ok c (take (lead_size c - 1) cs)
      then 0 else lead_size c)"

definition replacement_rune :: string where
  "replacement_rune = [CHR 0xEF, CHR 0xBF, CHR 0xBD]"

function utf8_coerce :: "string \<Rightarrow> string" where
  "utf8_coerce s =
     (if s = [] then []
      else if rune_len s = 0 then replacement_rune @ utf8_coerce (tl s)
      else take (rune_len s) s @ utf8_coerce (drop (rune_len s) s))"
  by pat_completeness auto
termination
  by (relation "measure length") (auto simp: Suc_le_eq)

function valid_utf8 :: "string \<Rightarrow> bool" where
  "valid_utf8 s =
     (if s = [] then True
      else if rune_len s = 0 then False
      else valid_utf8 (drop (rune_len s) s))"
  by pat_completeness auto
termination
  by (relation "measure length") (auto simp: Suc_le_eq)

declare utf8_coerce.simps [simp del] valid_utf8.simps [simp del]


section \<open>Numbers as encoding/json sees them\<close>

text \<open>
  \<open>json.Unmarshal\<close> into an \<open>interface{}\<close> reads every JSON number as a \<open>float64\<close>.
  \<open>f64_round\<close> is that reading for a non-negative integer literal: the integer itself when
  it has at most 53 significant bits, otherwise the nearest multiple of the unit in the
  last place, ties to the even mantissa (IEEE 754 round-to-nearest-even; the integers the
  program handles stay far below the overflow threshold of the format).
\<close>

fun bit_length :: "nat \<Rightarrow> nat" where
  "bit_length n = (if n = 0 then 0 else Suc (bit_length (n div 2)))"

declare bit_length.simps [simp del]

definition f64_round :: "nat \<Rightarrow> nat" where
  "f64_round n =
     (if n < 2 ^ 53 then n
      else
        let e = bit_length n - 53;
            q = n div 2 ^ e;
            r = n mod 2 ^ e;
            h = 2 ^ (e - 1)
        in if h < r \<or> (r = h \<and> odd q) then (q + 1) * 2 ^ e else q * 2 ^ e)"

definition f64_round_int :: "int \<Rightarrow> int" where
  "f64_round_int i = (if 0 \<le> i then int (f64_round (nat i)) else - int (f64_round (nat (- i))))"

text \<open>
  \<open>json.Marshal\<close> prints a \<open>float64\<close> with the fewest digits that read back as the same
  float (\<open>strconv.AppendFloat\<close> with precision -1), in positional notation below
  \<open>10^21\<close>. For an integer-valued float \<open>n\<close> of 2^53 or more the printed number is therefore
  the multiple of the largest power of ten that still reads back as \<open>n\<close>, and of two such
  multiples the one nearer to \<open>n\<close>.
\<close>

definition decimal_candidates :: "nat \<Rightarrow> nat \<Rightarrow> nat list" where
  "decimal_candidates n p =
     (let d = (n div 10 ^ p) * 10 ^ p; u = d + 10 ^ p
      in if n - d \<le> u - n then [d, u] else [u, d])"

definition shortest_decimal :: "nat \<Rightarrow> nat" where
  "shortest_decimal n =
     (case find (\<lambda>c. f64_round c = n) (concat (map (decimal_candidates n) (rev [0..<21]))) of
        Some c \<Rightarrow> c
      | None \<Rightarrow> n)"

text \<open>
  Decoding into the \<open>uint\<close> field \<open>Id\<close> parses the printed number with
  \<open>strconv.ParseUint(s, 10, 64)\<close> (a 64-bit platform is assumed): a sign, a fraction, an
  exponent or a value of 2^64 or more is an \<open>UnmarshalTypeError\<close>. \<open>uint_of_float r\<close> is the
  result for the float of value \<open>r\<close>; a rational that is no float64 value (an integer of
  2^53 or more that \<open>f64_round\<close> moves) stands for no Go value and is rejected. Negative
  zero is not represented.
\<close>

definition uint_of_float :: "rat \<Rightarrow> nat option" where
  "uint_of_float r =
     (if r < 0 \<or> r \<noteq> of_int \<lfloor>r\<rfloor> then None
      else
        let n = nat \<lfloor>r\<rfloor>
        in if n < 2 ^ 53 then Some n
           else if f64_round n \<noteq> n \<or> 10 ^ 21 \<le> n then None
           else if shortest_decimal n < 2 ^ 64 then Some (shortest_decimal n)
           else None)"

text \<open>
  The conversion \<open>int64(f)\<close> of a float truncates towards zero; out of range the result
  is the one of amd64 (the minimum integer).
\<close>

definition int64_of_float :: "rat \<Rightarrow> int" where
  "int64_of_float r =
     (let t = (if 0 \<le> r then \<lfloor>r\<rfloor> else \<lceil>r\<rceil>)
      in if - (2 ^ 63) \<le> t \<and> t < 2 ^ 63 then t else - (2 ^ 63))"

section \<open>Values of a generic payload\<close>

text \<open>
  The dynamic values a \<open>map[string]interface{}\<close> holds in this program are the ones
  \<open>json.Unmarshal\<close> produces: \<open>nil\<close>, \<open>bool\<close>, \<open>float64\<close> (by its value), \<open>string\<close>,
  \<open>[]interface{}\<close> and nested maps. All of them marshal without error, so the
  \<open>JSON Marshal error\<close> returns of the source are never taken on these values. A map is an
  association list read with \<open>map_of\<close> (the first entry of a key counts).
\<close>

datatype goval =
    VNil
  | VBool bool
  | VNum rat
  | VStr string
  | VArr "goval list"
  | VObj "(string \<times> goval) list"

type_synonym gomap = "(string \<times> goval) list"

text \<open>
  \<open>json_view\<close>: the value \<open>json.Unmarshal\<close> reads into an \<open>interface{}\<close> from the text that
  \<open>json.Marshal\<close> wrote for a value. Strings come back with their ill-formed bytes
  replaced; a float prints as the shortest text that reads back as itself.
\<close>

fun json_view :: "goval \<Rightarrow> goval" where
  "json_view VNil = VNil"
| "json_view (VBool b) = VBool b"
| "json_view (VNum r) = VNum r"
| "json_view (VStr s) = VStr (utf8_coerce s)"
| "json_view (VArr vs) = VArr (map json_view vs)"
| "json_view (VObj kvs) = VObj (map (\<lambda>(k, v). (utf8_coerce k, json_view v)) kvs)"

section \<open>The claim and its codec (security/jwt.go)\<close>

datatype auth_error =
    InvalidAccessToken
  | AccessTokenExpired
  | JSONMarshalError
  | JSONUnmarshalError
  | CreateAccessTokenError
  | CreateRefreshTokenError

text \<open>
  \<open>UserClaim\<close>: \<open>Id\<close> is a \<open>uint\<close> (64 bits), the two slices are \<open>None\<close> when \<open>nil\<close>.
\<close>

record UserClaim =
  Id :: "64 word"
  Roles :: "string list option"
  Permissions :: "string list option"

definition strings_view :: "string list option \<Rightarrow> goval" where
  "strings_view ss = (case ss of None \<Rightarrow> VNil | Some xs \<Rightarrow> VArr (map (\<lambda>s. VStr (utf8_coerce s)) xs))"

text \<open>
  \<open>ConvertMap\<close>: marshal the struct, unmarshal the text into a generic map. Neither step
  can fail on a \<open>UserClaim\<close>; the result type keeps the source's error return.
\<close>

definition ConvertMap :: "UserClaim \<Rightarrow> auth_error + gomap" where
  "ConvertMap c =
     Inr [(''id'', VNum (of_nat (f64_round (unat (Id c))))),
          (''roles'', strings_view (Roles c)),
          (''permissions'', strings_view (Permissions c))]"

text \<open>
  Field matching of \<open>json.Unmarshal\<close> into a struct: a key addresses the field whose JSON
  name it equals, or else the field whose name it equals under Unicode simple case
  folding. For the three names of \<open>UserClaim\<close> that is ASCII case-insensitivity, with the
  long s (U+017F, bytes C5 BF) also matching \<open>s\<close>. \<open>fold_eq name key\<close> takes the lower-case
  field name first.
\<close>

definition ascii_lower :: "char \<Rightarrow> char" where
  "ascii_lower c = (if byte_in 0x41 0x5A c then char_of (of_char c + (32 :: nat)) else c)"

fun fold_eq :: "string \<Rightarrow> string \<Rightarrow> bool" where
  "fold_eq [] [] = True"
| "fold_eq [] (k # ks) = False"
| "fold_eq (n # ns) [] = False"
| "fold_eq (n # ns) [k] = (ascii_lower k = n \<and> ns = [])"
| "fold_eq (n # ns) (k # k' # ks) =
     (if ascii_lower k = n then fold_eq ns (k' # ks)
      else n = CHR ''s'' \<and> k = CHR 0xC5 \<and> k' = CHR 0xBF \<and> fold_eq ns ks)"

text \<open>
  \<open>field_values name m\<close>: the values the decoder stores into the field \<open>name\<close>, in the order
  it meets them. \<open>json.Marshal\<close> writes the keys of a map in sorted order, and the decoder
  stores each matching key in turn, so the last one decides.
\<close>

definition field_values :: "string \<Rightarrow> gomap \<Rightarrow> goval list" where
  "field_values name m =
     map snd (sort_key fst (AList.clearjunk (filter (\<lambda>kv. fold_eq name (fst kv)) m)))"

text \<open>
  Storing one JSON value into the \<open>uint\<close> field: \<open>null\<close> leaves the field as it is, a number
  must print as an unsigned integer below 2^64, anything else is an \<open>UnmarshalTypeError\<close>
  (\<open>None\<close>; the decoder goes on, and \<open>Unmarshal\<close> returns the error at the end).
\<close>

fun store_uint :: "64 word option \<Rightarrow> goval \<Rightarrow> 64 word option" where
  "store_uint None v = None"
| "store_uint (Some old) VNil = Some old"
| "store_uint (Some old) (VNum r) = map_option of_nat (uint_of_float r)"
| "store_uint (Some old) v = None"

text \<open>
  Storing into a \<open>[]string\<close> field: \<open>null\<close> sets the slice to \<open>nil\<close>; an array is decoded
  element by element into the slots of the slice, a \<open>null\<close> element leaving its slot as it
  was (the empty string in a new slot), a string element stored with ill-formed bytes
  replaced, any other element an \<open>UnmarshalTypeError\<close>. The slots of an earlier, longer
  value that lie beyond the length of the slice are not modelled.
\<close>

fun store_elems :: "string list \<Rightarrow> goval list \<Rightarrow> string list option" where
  "store_elems old [] = Some []"
| "store_elems old (VStr s # vs) = map_option ((#) (utf8_coerce s)) (store_elems (tl old) vs)"
| "store_elems old (VNil # vs) =
     map_option ((#) (case old of [] \<Rightarrow> [] | s # _ \<Rightarrow> s)) (store_elems (tl old) vs)"
| "store_elems old (v # vs) = None"

fun store_strings :: "string list option option \<Rightarrow> goval \<Rightarrow> string list option option" where
  "store_strings None v = None"
| "store_strings (Some old) VNil = Some None"
| "store_strings (Some old) (VArr vs) =
     map_option Some (store_elems (case old of None \<Rightarrow> [] | Some xs \<Rightarrow> xs) vs)"
| "store_strings (Some old) v = None"

text \<open>
  \<open>NewUserClaim\<close>: marshal the map, unmarshal the text into a zero \<open>UserClaim\<close>. A key that
  matches no field is skipped. On an error the zero claim and the wrapped error are
  returned.
\<close>

definition NewUserClaim :: "gomap \<Rightarrow> auth_error + UserClaim" where
  "NewUserClaim m =
     (case (foldl store_uint (Some 0) (field_values ''id'' m),
            foldl store_strings (Some None) (field_values ''roles'' m),
            foldl store_strings (Some None) (field_values ''permissions'' m)) of
        (Some i, Some rs, Some ps) \<Rightarrow> Inr \<lparr>Id = i, Roles = rs, Permissions = ps\<rparr>
      | _ \<Rightarrow> Inl JSONUnmarshalError)"


section \<open>The token library (github.com/golang-jwt/jwt, version 3.2.2)\<close>

text \<open>
  A token string is represented by what the library reads from it. \<open>Malformed\<close>: the string
  does not split into three segments that decode (base64url, JSON) to a header and a claims
  object. \<open>Jwt enc hdr cl sg\<close>: it does; \<open>hdr\<close> and \<open>cl\<close> are the decoded maps, \<open>enc\<close> tells
  which of the texts that decode to these maps the first two segments are (0 for the text
  \<open>SignedString\<close> writes), and \<open>sg\<close> is the signature segment: \<open>Mac alg key enc hdr cl\<close> is the
  HMAC of the method \<open>alg\<close> under \<open>key\<close> of the signing input, \<open>Opaque\<close> any other content.
  Distinct \<open>Mac\<close> terms are distinct values: the HMACs are taken to be free of collisions.
\<close>

datatype sigval =
    Mac string string nat gomap gomap
  | Opaque nat

datatype wire =
    Malformed
  | Jwt nat gomap gomap sigval

text \<open>The bits of \<open>ValidationError.Errors\<close> (errors.go).\<close>

definition ValidationErrorMalformed :: "32 word" where
  "ValidationErrorMalformed = push_bit 0 1"

definition ValidationErrorUnverifiable :: "32 word" where
  "ValidationErrorUnverifiable = push_bit 1 1"

definition ValidationErrorSignatureInvalid :: "32 word" where
  "ValidationErrorSignatureInvalid = push_bit 2 1"

definition ValidationErrorExpired :: "32 word" where
  "ValidationErrorExpired = push_bit 4 1"

definition ValidationErrorIssuedAt :: "32 word" where
  "ValidationErrorIssuedAt = push_bit 5 1"

definition ValidationErrorNotValidYet :: "32 word" where
  "ValidationErrorNotValidYet = push_bit 7 1"

text \<open>
  The signing methods the library registers. With the \<open>[]byte\<close> key this program supplies,
  only the three HMAC methods can verify: \<open>none\<close> demands its own key constant, and the RSA,
  ECDSA and EdDSA methods a public key of their type.
\<close>

definition registered_methods :: "string list" where
  "registered_methods =
     [''HS256'', ''HS384'', ''HS512'', ''RS256'', ''RS384'', ''RS512'', ''PS256'', ''PS384'',
      ''PS512'', ''ES256'', ''ES384'', ''ES512'', ''EdDSA'', ''none'']"

definition method_Verify :: "string \<Rightarrow> string \<Rightarrow> nat \<Rightarrow> gomap \<Rightarrow> gomap \<Rightarrow> sigval \<Rightarrow> bool" where
  "method_Verify alg key enc hdr cl sg =
     (alg \<in> set [''HS256'', ''HS384'', ''HS512''] \<and> sg = Mac alg key enc hdr cl)"

text \<open>
  \<open>MapClaims.Valid\<close> (map_claims.go): the three time claims against the clock, none of them
  required. A claim that is present but no number fails its check; a number is converted
  with \<open>int64\<close>, and 0 counts as absent.
\<close>

definition verifyExp :: "int \<Rightarrow> int \<Rightarrow> bool" where
  "verifyExp expires now = (if expires = 0 then True else now \<le> expires)"

definition verifyIat :: "int \<Rightarrow> int \<Rightarrow> bool" where
  "verifyIat iat now = (if iat = 0 then True else iat \<le> now)"

definition verifyNbf :: "int \<Rightarrow> int \<Rightarrow> bool" where
  "verifyNbf nbf now = (if nbf = 0 then True else nbf \<le> now)"

definition verify_time_claim :: "(int \<Rightarrow> int \<Rightarrow> bool) \<Rightarrow> string \<Rightarrow> gomap \<Rightarrow> int \<Rightarrow> bool" where
  "verify_time_claim check name m cmp =
     (case map_of m name of
        None \<Rightarrow> True
      | Some (VNum r) \<Rightarrow> check (int64_of_float r) cmp
      | Some _ \<Rightarrow> False)"

definition VerifyExpiresAt :: "gomap \<Rightarrow> int \<Rightarrow> bool" where
  "VerifyExpiresAt = verify_time_claim verifyExp ''exp''"

definition VerifyIssuedAt :: "gomap \<Rightarrow> int \<Rightarrow> bool" where
  "VerifyIssuedAt = verify_time_claim verifyIat ''iat''"

definition VerifyNotBefore :: "gomap \<Rightarrow> int \<Rightarrow> bool" where
  "VerifyNotBefore = verify_time_claim verifyNbf ''nbf''"

definition MapClaims_Valid :: "gomap \<Rightarrow> int \<Rightarrow> 32 word" where
  "MapClaims_Valid m now =
     (if VerifyExpiresAt m now then 0 else ValidationErrorExpired)
     OR (if VerifyIssuedAt m now then 0 else ValidationErrorIssuedAt)
     OR (if VerifyNotBefore m now then 0 else ValidationErrorNotValidYet)"

text \<open>
  \<open>jwt.Parse\<close> with the key function of this program, which returns the secret for every
  token (parser.go): split and decode; look the method up by the header's \<open>alg\<close>; validate
  the claims; verify the signature, adding its bit to the errors of the claims; the token
  is valid when no bit is set. The result is the error bits or the parsed token.
\<close>

record Token =
  Header :: gomap
  Claims :: gomap
  Valid :: bool

definition jwt_Parse :: "string \<Rightarrow> int \<Rightarrow> wire \<Rightarrow> 32 word + Token" where
  "jwt_Parse key now w =
     (case w of
        Malformed \<Rightarrow> Inl ValidationErrorMalformed
      | Jwt enc hdr cl sg \<Rightarrow>
          (case map_of hdr ''alg'' of
             Some (VStr alg) \<Rightarrow>
               if alg \<notin> set registered_methods then Inl ValidationErrorUnverifiable
               else
                 let vErr = MapClaims_Valid cl now;
                     vErr = (if method_Verify alg key enc hdr cl sg then vErr
                             else vErr OR ValidationErrorSignatureInvalid)
                 in if vErr = 0 then Inr \<lparr>Header = hdr, Claims = cl, Valid = True\<rparr>
                    else Inl vErr
           | _ \<Rightarrow> Inl ValidationErrorUnverifiable))"

text \<open>
  \<open>SignedString\<close> of a token made by \<open>NewWithClaims(SigningMethodHS256, claims)\<close>: the header
  the library writes, the claims as they read back from their JSON text, and the HMAC.
\<close>

definition SignedString :: "string \<Rightarrow> gomap \<Rightarrow> auth_error + wire" where
  "SignedString key claims =
     (let hdr = [(''typ'', VStr ''JWT''), (''alg'', VStr ''HS256'')];
          cl = map (\<lambda>(k, v). (utf8_coerce k, json_view v)) claims
      in Inr (Jwt 0 hdr cl (Mac ''HS256'' key 0 hdr cl)))"

section \<open>Issuing, validating and refreshing (security/jwt.go)\<close>

text \<open>
  The secret \<open>config.Config.JwtSecret\<close> and each reading of the clock (\<open>time.Now()\<close>, in Unix
  seconds) are parameters. \<open>GenerateJwtToken\<close> reads the clock twice. The \<open>int64\<close> it
  stores under \<open>exp\<close> is written into the token as an integer and read by every parser as
  a \<open>float64\<close>: \<open>unix_claim\<close> is the value as the token carries it.
\<close>

definition unix_claim :: "int \<Rightarrow> goval" where
  "unix_claim t = VNum (of_int (f64_round_int t))"

text \<open>
  \<open>GenerateJwtToken\<close>, \<open>GenerateJwtAccessTokenNeverExpired\<close>, \<open>ConvertTokenUserClaim\<close>,
  \<open>RefreshAccessToken\<close> and \<open>ValidateToken\<close>, branch by branch.
\<close>

record JwtToken =
  AccessToken :: wire
  RefreshToken :: wire
  RefreshTokenExpires :: int

definition GenerateJwtToken :: "string \<Rightarrow> int \<Rightarrow> int \<Rightarrow> UserClaim \<Rightarrow> auth_error + JwtToken" where
  "GenerateJwtToken secret now1 now2 claim =
     (case ConvertMap claim of
        Inl err \<Rightarrow> Inl err
      | Inr claimMap \<Rightarrow>
          let accessTokenClaims = AList.update ''exp'' (unix_claim (now1 + 15 * 60)) claimMap
          in (case SignedString secret accessTokenClaims of
                Inl err \<Rightarrow> Inl CreateAccessTokenError
              | Inr accessToken \<Rightarrow>
                  let refreshTokenExpires = now2 + 7 * 24 * 3600;
                      refreshTokenClaims = AList.update ''exp'' (unix_claim refreshTokenExpires) claimMap
                  in (case SignedString secret refreshTokenClaims of
                        Inl err \<Rightarrow> Inl CreateRefreshTokenError
                      | Inr refreshToken \<Rightarrow>
                          Inr \<lparr>AccessToken = accessToken, RefreshToken = refreshToken,
                               RefreshTokenExpires = refreshTokenExpires\<rparr>)))"

definition GenerateJwtAccessTokenNeverExpired :: "string \<Rightarrow> UserClaim \<Rightarrow> auth_error + wire" where
  "GenerateJwtAccessTokenNeverExpired secret claim =
     (case ConvertMap claim of
        Inl err \<Rightarrow> Inl err
      | Inr claimMap \<Rightarrow>
          (case SignedString secret claimMap of
             Inl err \<Rightarrow> Inl CreateAccessTokenError
           | Inr accessToken \<Rightarrow> Inr accessToken))"

definition ConvertTokenUserClaim :: "string \<Rightarrow> int \<Rightarrow> wire \<Rightarrow> auth_error + UserClaim" where
  "ConvertTokenUserClaim secret now token =
     (case jwt_Parse secret now token of
        Inl ve \<Rightarrow>
          if ve AND (ValidationErrorExpired OR ValidationErrorNotValidYet) \<noteq> 0
          then Inl AccessTokenExpired
          else Inl InvalidAccessToken
      | Inr parsedToken \<Rightarrow>
          if Some (VStr ''HS256'') \<noteq> map_of (Header parsedToken) ''alg'' then Inl InvalidAccessToken
          else if \<not> Valid parsedToken then Inl InvalidAccessToken
          else (case NewUserClaim (Claims parsedToken) of
                  Inl err \<Rightarrow> Inl err
                | Inr userClaim \<Rightarrow> Inr userClaim))"

definition RefreshAccessToken :: "string \<Rightarrow> int \<Rightarrow> int \<Rightarrow> int \<Rightarrow> wire \<Rightarrow> auth_error + wire" where
  "RefreshAccessToken secret now now1 now2 refreshToken =
     (case ConvertTokenUserClaim secret now refreshToken of
        Inl err \<Rightarrow> Inl err
      | Inr userClaim \<Rightarrow>
          (case GenerateJwtToken secret now1 now2 userClaim of
             Inl err \<Rightarrow> Inl err
           | Inr jwtToken \<Rightarrow> Inr (AccessToken jwtToken)))"

definition ValidateToken :: "string \<Rightarrow> int \<Rightarrow> wire \<Rightarrow> auth_error option" where
  "ValidateToken secret now token =
     (case ConvertTokenUserClaim secret now token of Inl err \<Rightarrow> Some err | Inr _ \<Rightarrow> None)"

section \<open>The middlewares\<close>

text \<open>
  Of a request the middlewares read the \<open>Authorization\<close> header (\<open>Header.Get\<close> gives the
  empty string when there is none) and the claim slot of the request context.
\<close>

record request =
  Authorization :: string
  RequestURI :: string
  user_claim :: "UserClaim option"

text \<open>
  Modelled from the spec: \<open>helpers.ContextHelper()\<close>, whose source is not part of the files
  at hand. The context is a request-scoped slot holding at most one claim, absent until
  set; \<open>GetUserClaim\<close> fails when the slot is empty.
\<close>

definition SetUserClaim :: "request \<Rightarrow> UserClaim \<Rightarrow> request" where
  "SetUserClaim req userClaim = req\<lparr>user_claim := Some userClaim\<rparr>"

text \<open>
  Modelled from the spec: \<open>helpers.ContextHelper().GetUserClaim\<close>, the read of that slot.
\<close>

definition GetUserClaim :: "request \<Rightarrow> unit + UserClaim" where
  "GetUserClaim req = (case user_claim req of None \<Rightarrow> Inl () | Some userClaim \<Rightarrow> Inr userClaim)"

text \<open>The text of an error, \<open>err.Error()\<close>; of a wrapped JSON error only the wrapper's part.\<close>

fun Error :: "auth_error \<Rightarrow> string" where
  "Error InvalidAccessToken = ''invalid access token''"
| "Error AccessTokenExpired = ''access token expired''"
| "Error JSONMarshalError = ''JSON Marshal error''"
| "Error JSONUnmarshalError = ''JSON Unmarshal error''"
| "Error CreateAccessTokenError = ''create accessToken error''"
| "Error CreateRefreshTokenError = ''create refreshToken error''"

datatype http_error = HTTPError nat string

definition StatusUnauthorized :: nat where
  "StatusUnauthorized = 401"

text \<open>\<open>strings.Index\<close>: the index of the first instance of the substring, or -1.\<close>

fun strings_Index :: "string \<Rightarrow> string \<Rightarrow> int" where
  "strings_Index [] substr = (if substr = [] then 0 else - 1)"
| "strings_Index (c # cs) substr =
     (if take (length substr) (c # cs) = substr then 0
      else if strings_Index cs substr < 0 then - 1
      else strings_Index cs substr + 1)"

text \<open>\<open>strings.Trim(s, " ")\<close>: all leading and trailing spaces removed.\<close>

definition strings_Trim_space :: "string \<Rightarrow> string" where
  "strings_Trim_space s =
     rev (dropWhile (\<lambda>c. c = CHR '' '') (rev (dropWhile (\<lambda>c. c = CHR '' '') s)))"

text \<open>
  The token the middleware hands to the validator (lines 26 to 33): the header from behind
  the first \<open>Bearer\<close>, trimmed, or the whole header when it has no \<open>Bearer\<close>.
\<close>

definition bearer_token :: "string \<Rightarrow> string" where
  "bearer_token accessToken =
     (let index = strings_Index accessToken ''Bearer'';
          index = (if index < 0 then strings_Index accessToken ''Bearer'' else index)
      in if 0 \<le> index
         then strings_Trim_space (drop (nat (index + int (length ''Bearer''))) accessToken)
         else accessToken)"

text \<open>
  \<open>JwtToken()\<close>, the middleware (named \<open>middleware_JwtToken\<close> here, apart from the record of the
  token pair). \<open>decode\<close> is the library's reading of a token string, \<open>next\<close> the rest of the
  chain; a handler returns an HTTP error or its own result.
\<close>

definition middleware_JwtToken ::
  "(string \<Rightarrow> wire) \<Rightarrow> string \<Rightarrow> int \<Rightarrow> (request \<Rightarrow> http_error + 'a) \<Rightarrow> request \<Rightarrow> http_error + 'a" where
  "middleware_JwtToken decode secret now next c =
     (let accessToken = Authorization c
      in if length accessToken = 0 then next c
         else
           (case ConvertTokenUserClaim secret now (decode (bearer_token accessToken)) of
              Inl err \<Rightarrow> Inl (HTTPError StatusUnauthorized (Error err))
            | Inr userClaim \<Rightarrow> next (SetUserClaim c userClaim)))"

definition CheckAuth :: "(request \<Rightarrow> http_error + 'a) \<Rightarrow> request \<Rightarrow> http_error + 'a" where
  "CheckAuth next c =
     (case GetUserClaim c of
        Inl err \<Rightarrow> Inl (HTTPError StatusUnauthorized ''Please provide valid credentials'')
      | Inr _ \<Rightarrow> next c)"


section \<open>Notions used in the statements\<close>

text \<open>Encoding a claim and decoding the map again.\<close>

definition round_trip :: "UserClaim \<Rightarrow> auth_error + UserClaim" where
  "round_trip c = (case ConvertMap c of Inl err \<Rightarrow> Inl err | Inr m \<Rightarrow> NewUserClaim m)"

text \<open>Every name of a slice is well-formed UTF-8.\<close>

definition names_valid :: "string list option \<Rightarrow> bool" where
  "names_valid ss = (case ss of None \<Rightarrow> True | Some xs \<Rightarrow> list_all valid_utf8 xs)"

text \<open>A key that addresses one of the three fields of the claim.\<close>

definition known_field :: "string \<Rightarrow> bool" where
  "known_field k = (fold_eq ''id'' k \<or> fold_eq ''roles'' k \<or> fold_eq ''permissions'' k)"

text \<open>
  A value of the wrong shape for the \<open>id\<close>: of another JSON type than number, or a
  negative or fractional number.
\<close>

fun ill_shaped_id :: "goval \<Rightarrow> bool" where
  "ill_shaped_id VNil = False"
| "ill_shaped_id (VNum r) = (r < 0 \<or> r \<noteq> of_int \<lfloor>r\<rfloor>)"
| "ill_shaped_id v = True"

text \<open>The header names a signing method the library knows.\<close>

definition method_registered :: "gomap \<Rightarrow> bool" where
  "method_registered hdr =
     (case map_of hdr ''alg'' of
        Some (VStr alg) \<Rightarrow> alg \<in> set registered_methods
      | _ \<Rightarrow> False)"

text \<open>The outcome of validation for a token that is rejected: which of the two errors.\<close>

definition rejection :: "gomap \<Rightarrow> gomap \<Rightarrow> int \<Rightarrow> auth_error" where
  "rejection hdr cl now =
     (if method_registered hdr \<and> \<not> (VerifyExpiresAt cl now \<and> VerifyNotBefore cl now)
      then AccessTokenExpired else InvalidAccessToken)"


text \<open>The header \<open>SignedString\<close> writes, and the token it makes of a claims map.\<close>

definition jwt_header :: gomap where
  "jwt_header = [(''typ'', VStr ''JWT''), (''alg'', VStr ''HS256'')]"

definition signed_token :: "string \<Rightarrow> gomap \<Rightarrow> wire" where
  "signed_token key cl = Jwt 0 jwt_header cl (Mac ''HS256'' key 0 jwt_header cl)"

text \<open>The map \<open>ConvertMap\<close> returns for a claim.\<close>

definition claim_map :: "UserClaim \<Rightarrow> gomap" where
  "claim_map c =
     [(''id'', VNum (of_nat (f64_round (unat (Id c))))),
      (''roles'', strings_view (Roles c)),
      (''permissions'', strings_view (Permissions c))]"

text \<open>The claims a token string carries (none when it is malformed).\<close>

definition wire_claims :: "wire \<Rightarrow> gomap" where
  "wire_claims w = (case w of Malformed \<Rightarrow> [] | Jwt enc hdr cl sg \<Rightarrow> cl)"

text \<open>An id that the generic map holds without loss: it reads back from its float.\<close>

definition id_stable :: "64 word \<Rightarrow> bool" where
  "id_stable i = (uint_of_float (of_nat (f64_round (unat i))) = Some (unat i))"

section \<open>Lemmas on strings\<close>

lemma utf8_coerce_valid: "valid_utf8 s \<Longrightarrow> utf8_coerce s = s"
proof (induction s rule: utf8_coerce.induct)
  case (1 s)
  show ?case
  proof (cases "s = []")
    case True
    then show ?thesis by (simp add: utf8_coerce.simps)
  next
    case False
    from "1.prems" False have r: "rune_len s \<noteq> 0" and v: "valid_utf8 (drop (rune_len s) s)"
      by (subst (asm) valid_utf8.simps, simp split: if_splits)+
    from "1.IH"(2) [OF False r v] False r show ?thesis
      by (subst utf8_coerce.simps) simp
  qed
qed

lemma valid_utf8_ascii: "list_all (\<lambda>c. (of_char c :: nat) < 0x80) s \<Longrightarrow> valid_utf8 s"
  by (induction s) (simp_all add: valid_utf8.simps lead_size_def)

lemma rune_len_le: "rune_len s \<le> length s"
  by (cases s) auto

lemma rune_len_take:
  assumes "rune_len s \<noteq> 0"
  shows "rune_len (take (rune_len s) s @ t) = rune_len s"
proof (cases s)
  case Nil
  with assms show ?thesis by simp
next
  case (Cons c cs)
  with assms have n: "lead_size c \<noteq> 0" and l: "lead_size c - 1 \<le> length cs"
    and k: "continuation_ok c (take (lead_size c - 1) cs)" and r: "rune_len s = lead_size c"
    by (auto split: if_splits)
  from n have "take (lead_size c) (c # cs) = c # take (lead_size c - 1) cs"
    by (cases "lead_size c") simp_all
  with Cons r n l k show ?thesis
    by simp
qed

lemma valid_utf8_Nil: "valid_utf8 []"
  by (simp add: valid_utf8.simps)

lemma valid_utf8_rune:
  assumes "rune_len s \<noteq> 0" and "valid_utf8 t"
  shows "valid_utf8 (take (rune_len s) s @ t)"
proof -
  have l: "length (take (rune_len s) s) = rune_len s"
    using rune_len_le [of s] by simp
  have "take (rune_len s) s \<noteq> []"
    using assms(1) l by auto
  then show ?thesis
    using assms l by (subst valid_utf8.simps) (simp add: rune_len_take)
qed

lemma valid_utf8_replacement: "valid_utf8 t \<Longrightarrow> valid_utf8 (replacement_rune @ t)"
  by (subst valid_utf8.simps) (simp add: replacement_rune_def byte_in_def lead_size_def accept_lo_def accept_hi_def)

lemma valid_utf8_coerce: "valid_utf8 (utf8_coerce s)"
proof (induction s rule: utf8_coerce.induct)
  case (1 s)
  show ?case
  proof (cases "s = []")
    case True
    then show ?thesis by (simp add: utf8_coerce.simps valid_utf8_Nil)
  next
    case False
    show ?thesis
    proof (cases "rune_len s = 0")
      case True
      with False "1.IH"(1) show ?thesis
        by (subst utf8_coerce.simps) (simp add: valid_utf8_replacement)
    next
      case r: False
      with False "1.IH"(2) show ?thesis
        by (subst utf8_coerce.simps) (simp add: valid_utf8_rune)
    qed
  qed
qed

lemma utf8_coerce_idem: "utf8_coerce (utf8_coerce s) = utf8_coerce s"
  by (simp add: utf8_coerce_valid valid_utf8_coerce)

lemma strings_Index_prefix: "substr \<noteq> [] \<Longrightarrow> strings_Index (substr @ s) substr = 0"
  by (cases substr) simp_all

lemma dropWhile_hd: "xs \<noteq> [] \<Longrightarrow> \<not> P (hd xs) \<Longrightarrow> dropWhile P xs = xs"
  by (cases xs) simp_all

lemma strings_Trim_space_id:
  assumes "s = [] \<or> (hd s \<noteq> CHR '' '' \<and> last s \<noteq> CHR '' '')"
  shows "strings_Trim_space (CHR '' '' # s) = s"
proof (cases "s = []")
  case True
  then show ?thesis by (simp add: strings_Trim_space_def)
next
  case False
  with assms have h: "hd s \<noteq> CHR '' ''" and l: "hd (rev s) \<noteq> CHR '' ''"
    by (simp_all add: hd_rev)
  from False h have "dropWhile (\<lambda>c. c = CHR '' '') s = s"
    by (intro dropWhile_hd) simp_all
  moreover from False l have "dropWhile (\<lambda>c. c = CHR '' '') (rev s) = rev s"
    by (intro dropWhile_hd) simp_all
  ultimately show ?thesis
    by (simp add: strings_Trim_space_def)
qed

lemma bearer_token_Bearer:
  assumes "tok = [] \<or> (hd tok \<noteq> CHR '' '' \<and> last tok \<noteq> CHR '' '')"
  shows "bearer_token (''Bearer '' @ tok) = tok"
proof -
  have "strings_Index (''Bearer'' @ (CHR '' '' # tok)) ''Bearer'' = 0"
    by (rule strings_Index_prefix) simp
  then have "strings_Index (''Bearer '' @ tok) ''Bearer'' = 0" by simp
  then show ?thesis
    using strings_Trim_space_id [OF assms] by (simp add: bearer_token_def Let_def)
qed

lemma bearer_token_none:
  "strings_Index h ''Bearer'' < 0 \<Longrightarrow> bearer_token h = h"
  by (simp add: bearer_token_def Let_def)

section \<open>Lemmas on numbers\<close>

lemma uint_of_float_small: "n < 2 ^ 53 \<Longrightarrow> uint_of_float (of_nat (f64_round n)) = Some n"
  by (simp add: uint_of_float_def f64_round_def)

lemma uint_of_float_0: "uint_of_float 0 = Some 0"
  by (simp add: uint_of_float_def)

lemma find_Some_holds: "find P xs = Some x \<Longrightarrow> P x"
  by (induction xs) (auto split: if_splits)

lemma f64_round_shortest_decimal:
  "f64_round n = n \<Longrightarrow> f64_round (shortest_decimal n) = n"
  by (auto simp: shortest_decimal_def split: option.splits dest: find_Some_holds)

lemma uint_of_float_stable:
  assumes "uint_of_float r = Some d"
  shows "d < 2 ^ 64 \<and> uint_of_float (of_nat (f64_round d)) = Some d"
proof -
  define n where "n = nat \<lfloor>r\<rfloor>"
  from assms have nonneg: "\<not> r < 0" and int: "r = of_int \<lfloor>r\<rfloor>"
    by (auto simp: uint_of_float_def split: if_splits)
  show ?thesis
  proof (cases "n < 2 ^ 53")
    case True
    with assms nonneg int have "d = n"
      by (simp add: uint_of_float_def n_def Let_def split: if_splits)
    with True show ?thesis
      by (simp add: uint_of_float_small)
  next
    case False
    with assms nonneg int have rep: "f64_round n = n" and lt: "n < 10 ^ 21"
      and d: "d = shortest_decimal n" and d64: "d < 2 ^ 64"
      by (auto simp: uint_of_float_def n_def Let_def split: if_splits)
    from rep d have "f64_round d = n"
      by (simp add: f64_round_shortest_decimal)
    with False rep lt d d64 show ?thesis
      by (simp add: uint_of_float_def Let_def)
  qed
qed

lemma f64_round_eval:
  "f64_round 9007199254740993 = 9007199254740992"
  "f64_round 9007199254740992 = 9007199254740992"
  by (simp_all add: f64_round_def bit_length.simps Let_def)

lemma shortest_decimal_eval:
  "shortest_decimal 9007199254740992 = 9007199254740992"
  by (simp add: shortest_decimal_def decimal_candidates_def f64_round_def bit_length.simps
      Let_def upt_rec)

lemma f64_round_max: "f64_round 18446744073709551615 = 18446744073709551616"
  "f64_round 18446744073709551616 = 18446744073709551616"
  by (simp_all add: f64_round_def bit_length.simps Let_def)

lemma shortest_decimal_max: "shortest_decimal 18446744073709551616 = 18446744073709552000"
  by (simp add: shortest_decimal_def decimal_candidates_def f64_round_def bit_length.simps
      Let_def upt_rec)

lemma int64_of_float_int: "- (2 ^ 63) \<le> i \<Longrightarrow> i < 2 ^ 63 \<Longrightarrow> int64_of_float (of_int i) = i"
  by (simp add: int64_of_float_def)

lemma unix_claim_value:
  assumes "0 \<le> e" and "e < 2 ^ 53"
  shows "unix_claim e = VNum (of_int e)"
proof -
  from assms have "nat e < 2 ^ 53" by simp
  with assms show ?thesis
    by (simp add: unix_claim_def f64_round_int_def f64_round_def)
qed

section \<open>Lemmas on the codec\<close>

lemma field_values_id:
  "field_values ''id'' [(''id'', a), (''roles'', b), (''permissions'', c)] = [a]"
  by (simp add: field_values_def ascii_lower_def byte_in_def)

lemma field_values_roles:
  "field_values ''roles'' [(''id'', a), (''roles'', b), (''permissions'', c)] = [b]"
  by (simp add: field_values_def ascii_lower_def byte_in_def)

lemma field_values_permissions:
  "field_values ''permissions'' [(''id'', a), (''roles'', b), (''permissions'', c)] = [c]"
  by (simp add: field_values_def ascii_lower_def byte_in_def)

lemma store_elems_strings:
  "store_elems old (map (\<lambda>s. VStr (f s)) xs) = Some (map (\<lambda>s. utf8_coerce (f s)) xs)"
  by (induction xs arbitrary: old) simp_all

lemma store_strings_view:
  "store_strings (Some None) (strings_view ss) = Some (map_option (map (\<lambda>s. utf8_coerce (utf8_coerce s))) ss)"
  by (cases ss) (simp_all add: strings_view_def store_elems_strings)

lemma round_trip_eq:
  "round_trip c =
     (case uint_of_float (of_nat (f64_round (unat (Id c)))) of
        None \<Rightarrow> Inl JSONUnmarshalError
      | Some n \<Rightarrow> Inr \<lparr>Id = of_nat n,
            Roles = map_option (map (\<lambda>s. utf8_coerce (utf8_coerce s))) (Roles c),
            Permissions = map_option (map (\<lambda>s. utf8_coerce (utf8_coerce s))) (Permissions c)\<rparr>)"
  by (simp add: round_trip_def ConvertMap_def NewUserClaim_def field_values_id field_values_roles
      field_values_permissions store_strings_view split: option.splits)

lemma names_valid_map: "names_valid ss \<Longrightarrow> map_option (map (\<lambda>s. utf8_coerce (utf8_coerce s))) ss = ss"
  by (cases ss) (auto simp: names_valid_def list_all_iff utf8_coerce_valid intro: map_idI)

lemma round_trip_valid:
  assumes "unat (Id c) < 2 ^ 53" and "names_valid (Roles c)" and "names_valid (Permissions c)"
  shows "round_trip c = Inr c"
  using assms by (simp add: round_trip_eq uint_of_float_small names_valid_map)

lemma round_trip_small:
  assumes "unat (Id c) < 2 ^ 53"
  shows "\<exists>c'. round_trip c = Inr c'"
  using assms by (simp add: round_trip_eq uint_of_float_small)

lemma round_trip_max:
  "round_trip \<lparr>Id = 18446744073709551615, Roles = None, Permissions = None\<rparr> = Inl JSONUnmarshalError"
  by (simp add: round_trip_eq uint_of_float_def f64_round_max shortest_decimal_max)

lemma field_values_filter:
  assumes "\<And>k. fold_eq name k \<Longrightarrow> Q k"
  shows "field_values name (filter (\<lambda>kv. Q (fst kv)) m) = field_values name m"
proof -
  have "filter (\<lambda>kv. fold_eq name (fst kv)) (filter (\<lambda>kv. Q (fst kv)) m)
        = filter (\<lambda>kv. fold_eq name (fst kv)) m"
    using assms by (auto simp: filter_filter intro: filter_cong)
  then show ?thesis by (simp add: field_values_def)
qed

lemma field_values_known:
  "field_values ''id'' (filter (\<lambda>kv. known_field (fst kv)) m) = field_values ''id'' m"
  "field_values ''roles'' (filter (\<lambda>kv. known_field (fst kv)) m) = field_values ''roles'' m"
  "field_values ''permissions'' (filter (\<lambda>kv. known_field (fst kv)) m) = field_values ''permissions'' m"
  by (rule field_values_filter, simp add: known_field_def)+

lemma NewUserClaim_known:
  "NewUserClaim (filter (\<lambda>kv. known_field (fst kv)) m) = NewUserClaim m"
  by (simp only: NewUserClaim_def field_values_known)

lemma field_values_skip:
  "\<not> fold_eq name k \<Longrightarrow> field_values name ((k, v) # m) = field_values name m"
  by (simp add: field_values_def)

lemma field_values_only:
  assumes "\<forall>kv\<in>set m. \<not> fold_eq name (fst kv)"
  shows "field_values name m = []"
    and "fold_eq name k \<Longrightarrow> field_values name ((k, v) # m) = [v]"
proof -
  from assms have "filter (\<lambda>kv. fold_eq name (fst kv)) m = []"
    by (simp add: filter_empty_conv)
  then show "field_values name m = []" "fold_eq name k \<Longrightarrow> field_values name ((k, v) # m) = [v]"
    by (simp_all add: field_values_def)
qed

lemma NewUserClaim_no_id:
  assumes "\<forall>kv\<in>set m. \<not> fold_eq ''id'' (fst kv)"
  shows "NewUserClaim ((''id'', VNum 0) # m) = NewUserClaim m"
    and "NewUserClaim ((''id'', VNil) # m) = NewUserClaim m"
  using field_values_only [OF assms] 
  by (simp_all add: NewUserClaim_def field_values_skip ascii_lower_def byte_in_def uint_of_float_0)

lemma foldl_store_uint_None: "foldl store_uint None vs = None"
  by (induction vs) simp_all

lemma store_uint_ill_shaped: "ill_shaped_id v \<Longrightarrow> store_uint a v = None"
  by (cases a; cases v) (auto simp: uint_of_float_def)

lemma foldl_store_uint_ill_shaped:
  "v \<in> set vs \<Longrightarrow> ill_shaped_id v \<Longrightarrow> foldl store_uint a vs = None"
  by (induction vs arbitrary: a) (auto simp: store_uint_ill_shaped foldl_store_uint_None)

lemma field_values_member:
  assumes "map_of m k = Some v" and "fold_eq name k"
  shows "v \<in> set (field_values name m)"
proof -
  have "map_of (filter (\<lambda>(k, v). fold_eq name k) m) k = Some v"
    using assms by (intro map_of_filter_in) simp_all
  then have "map_of (AList.clearjunk (filter (\<lambda>kv. fold_eq name (fst kv)) m)) k = Some v"
    by (simp add: map_of_clearjunk case_prod_unfold)
  then have "(k, v) \<in> set (AList.clearjunk (filter (\<lambda>kv. fold_eq name (fst kv)) m))"
    by (rule map_of_SomeD)
  then show ?thesis
    by (force simp: field_values_def)
qed

lemma NewUserClaim_ill_shaped:
  assumes "map_of m ''id'' = Some v" and "ill_shaped_id v"
  shows "NewUserClaim m = Inl JSONUnmarshalError"
proof -
  have "v \<in> set (field_values ''id'' m)"
    using assms(1) by (rule field_values_member) (simp add: ascii_lower_def byte_in_def)
  then have "foldl store_uint (Some 0) (field_values ''id'' m) = None"
    using assms(2) by (rule foldl_store_uint_ill_shaped)
  then show ?thesis by (simp add: NewUserClaim_def)
qed

lemma coerce_admin: "utf8_coerce ''admin'' = ''admin''"
  by (simp add: utf8_coerce_valid valid_utf8_ascii)

lemma NewUserClaim_eval:
  "NewUserClaim [(''roles'', VArr [VStr ''admin'']), (''sub'', VStr ''x'')]
   = Inr \<lparr>Id = 0, Roles = Some [''admin''], Permissions = None\<rparr>"
  by (simp add: NewUserClaim_def field_values_def ascii_lower_def byte_in_def coerce_admin)

lemma id_stable_0: "id_stable 0"
  by (simp add: id_stable_def uint_of_float_small)

lemma store_uint_stable:
  assumes "store_uint (Some old) v = Some i" and "id_stable old"
  shows "id_stable i"
proof (cases v)
  case VNil
  with assms show ?thesis by simp
next
  case (VNum r)
  with assms obtain d where d: "uint_of_float r = Some d" and i: "i = of_nat d"
    by auto
  from uint_of_float_stable [OF d] have "d < 2 ^ 64" and s: "uint_of_float (of_nat (f64_round d)) = Some d"
    by simp_all
  then have "unat i = d"
    using i by (simp add: of_nat_inverse)
  with s show ?thesis by (simp add: id_stable_def)
qed (use assms in simp_all)

lemma foldl_store_uint_stable:
  "foldl store_uint (Some a) vs = Some i \<Longrightarrow> id_stable a \<Longrightarrow> id_stable i"
proof (induction vs arbitrary: a)
  case Nil
  then show ?case by simp
next
  case (Cons v vs)
  show ?case
  proof (cases "store_uint (Some a) v")
    case None
    with Cons.prems show ?thesis by (simp add: foldl_store_uint_None)
  next
    case (Some b)
    with Cons show ?thesis by (auto dest: store_uint_stable)
  qed
qed

lemma store_elems_valid:
  "store_elems old vs = Some xs \<Longrightarrow> list_all valid_utf8 old \<Longrightarrow> list_all valid_utf8 xs"
proof (induction old vs arbitrary: xs rule: store_elems.induct)
  case (1 old)
  then show ?case by simp
next
  case (2 old s vs)
  then show ?case by (cases old) (auto simp: valid_utf8_coerce)
next
  case (3 old vs)
  then show ?case by (cases old) (auto simp: valid_utf8_Nil)
qed simp_all

lemma foldl_store_strings_None: "foldl store_strings None vs = None"
  by (induction vs) simp_all

lemma store_strings_valid:
  assumes "store_strings (Some old) v = Some new" and "names_valid old"
  shows "names_valid new"
proof (cases v)
  case VNil
  with assms show ?thesis by (simp add: names_valid_def)
next
  case (VArr vs)
  with assms show ?thesis
    by (cases old) (auto simp: names_valid_def dest: store_elems_valid)
qed (use assms in simp_all)

lemma foldl_store_strings_valid:
  "foldl store_strings (Some a) vs = Some b \<Longrightarrow> names_valid a \<Longrightarrow> names_valid b"
proof (induction vs arbitrary: a)
  case Nil
  then show ?case by simp
next
  case (Cons v vs)
  show ?case
  proof (cases "store_strings (Some a) v")
    case None
    with Cons.prems show ?thesis by (simp add: foldl_store_strings_None)
  next
    case (Some c)
    with Cons show ?thesis by (auto dest: store_strings_valid)
  qed
qed

lemma NewUserClaim_fixpoint:
  assumes "NewUserClaim m = Inr c"
  shows "round_trip c = Inr c"
proof -
  from assms obtain i rs ps where
    i: "foldl store_uint (Some 0) (field_values ''id'' m) = Some i"
    and rs: "foldl store_strings (Some None) (field_values ''roles'' m) = Some rs"
    and ps: "foldl store_strings (Some None) (field_values ''permissions'' m) = Some ps"
    and c: "c = \<lparr>Id = i, Roles = rs, Permissions = ps\<rparr>"
    by (auto simp: NewUserClaim_def split: option.splits)
  have "id_stable i"
    using i id_stable_0 by (rule foldl_store_uint_stable)
  moreover have "names_valid rs" "names_valid ps"
    using rs ps by (auto dest: foldl_store_strings_valid simp: names_valid_def)
  ultimately show ?thesis
    by (simp add: round_trip_eq c id_stable_def names_valid_map)
qed

lemma c42_valid:
  "unat (Id \<lparr>Id = 42, Roles = Some [''admin''], Permissions = Some [''read'', ''write'']\<rparr>) < 2 ^ 53"
  "names_valid (Roles \<lparr>Id = 42, Roles = Some [''admin''], Permissions = Some [''read'', ''write'']\<rparr>)"
  "names_valid (Permissions \<lparr>Id = 42, Roles = Some [''admin''], Permissions = Some [''read'', ''write'']\<rparr>)"
  by (simp_all add: names_valid_def valid_utf8_ascii)

section \<open>Lemmas on validation\<close>

lemma err_consts:
  "ValidationErrorMalformed = 1" "ValidationErrorUnverifiable = 2"
  "ValidationErrorSignatureInvalid = 4" "ValidationErrorExpired = 16"
  "ValidationErrorIssuedAt = 32" "ValidationErrorNotValidYet = 128"
  by (simp_all add: ValidationErrorMalformed_def ValidationErrorUnverifiable_def
      ValidationErrorSignatureInvalid_def ValidationErrorExpired_def
      ValidationErrorIssuedAt_def ValidationErrorNotValidYet_def)

lemma time_bits':
  "(MapClaims_Valid cl now AND (ValidationErrorExpired OR ValidationErrorNotValidYet) \<noteq> 0)
   = (\<not> (VerifyExpiresAt cl now \<and> VerifyNotBefore cl now))"
  "((MapClaims_Valid cl now OR ValidationErrorSignatureInvalid)
      AND (ValidationErrorExpired OR ValidationErrorNotValidYet) \<noteq> 0)
   = (\<not> (VerifyExpiresAt cl now \<and> VerifyNotBefore cl now))"
  by (simp_all add: MapClaims_Valid_def err_consts)

lemma no_bits':
  "(MapClaims_Valid cl now = 0)
   = (VerifyExpiresAt cl now \<and> VerifyIssuedAt cl now \<and> VerifyNotBefore cl now)"
  "MapClaims_Valid cl now OR ValidationErrorSignatureInvalid \<noteq> 0"
  by (simp_all add: MapClaims_Valid_def err_consts)

lemma jwt_Parse_Jwt:
  "jwt_Parse key now (Jwt enc hdr cl sg) =
     (case map_of hdr ''alg'' of
        Some (VStr alg) \<Rightarrow>
          if alg \<notin> set registered_methods then Inl ValidationErrorUnverifiable
          else if MapClaims_Valid cl now OR
                  (if method_Verify alg key enc hdr cl sg then 0 else ValidationErrorSignatureInvalid) = 0
               then Inr \<lparr>Header = hdr, Claims = cl, Valid = True\<rparr>
               else Inl (MapClaims_Valid cl now OR
                  (if method_Verify alg key enc hdr cl sg then 0 else ValidationErrorSignatureInvalid))
      | _ \<Rightarrow> Inl ValidationErrorUnverifiable)"
  by (simp add: jwt_Parse_def Let_def split: option.splits goval.splits)

lemma ConvertTokenUserClaim_Jwt:
  "ConvertTokenUserClaim secret now (Jwt enc hdr cl sg) =
     (if map_of hdr ''alg'' = Some (VStr ''HS256'') \<and> sg = Mac ''HS256'' secret enc hdr cl
         \<and> VerifyExpiresAt cl now \<and> VerifyIssuedAt cl now \<and> VerifyNotBefore cl now
      then NewUserClaim cl
      else Inl (rejection hdr cl now))"
proof -
  have id: "\<And>x :: auth_error + UserClaim. (case x of Inl err \<Rightarrow> Inl err | Inr c \<Rightarrow> Inr c) = x"
    by (simp split: sum.splits)
  have unv: "ValidationErrorUnverifiable AND (ValidationErrorExpired OR ValidationErrorNotValidYet) = 0"
    by (simp add: err_consts)
  show ?thesis
  proof (cases "\<exists>alg. map_of hdr ''alg'' = Some (VStr alg) \<and> alg \<in> set registered_methods")
    case False
    then have p: "jwt_Parse secret now (Jwt enc hdr cl sg) = Inl ValidationErrorUnverifiable"
      by (auto simp: jwt_Parse_Jwt split: option.splits goval.splits)
    from False have r: "\<not> method_registered hdr"
      by (auto simp: method_registered_def split: option.splits goval.splits)
    from False have h: "map_of hdr ''alg'' \<noteq> Some (VStr ''HS256'')"
      by (auto simp: registered_methods_def)
    show ?thesis
      by (simp add: ConvertTokenUserClaim_def p unv r h rejection_def)
  next
    case True
    then obtain alg where a: "map_of hdr ''alg'' = Some (VStr alg)" and m: "alg \<in> set registered_methods"
      by blast
    from a m have r: "method_registered hdr"
      by (simp add: method_registered_def)
    show ?thesis
    proof (cases "alg = ''HS256''")
      case True
      with a m r show ?thesis
        by (auto simp: ConvertTokenUserClaim_def jwt_Parse_Jwt time_bits' no_bits' id rejection_def
            method_Verify_def)
    next
      case False
      with a m r show ?thesis
        by (auto simp: ConvertTokenUserClaim_def jwt_Parse_Jwt time_bits' no_bits' id rejection_def)
    qed
  qed
qed

lemma hs256_registered: "method_registered ((''alg'', VStr ''HS256'') # hdr)"
  by (simp add: method_registered_def registered_methods_def)

lemma time_eval:
  "VerifyExpiresAt [(''id'', VNum 1), (''exp'', VNum 2000)] 1000"
  "\<not> VerifyExpiresAt [(''id'', VNum 1), (''exp'', VNum 2000)] 3000"
  "VerifyNotBefore [(''id'', VNum 1), (''exp'', VNum 2000)] now"
  "VerifyIssuedAt [(''id'', VNum 1), (''exp'', VNum 2000)] now"
  using int64_of_float_int [of 2000]
  by (simp_all add: VerifyExpiresAt_def VerifyNotBefore_def VerifyIssuedAt_def verify_time_claim_def verifyExp_def)

lemma none_registered: "method_registered [(''alg'', VStr ''none'')]"
  by (simp add: method_registered_def registered_methods_def)

lemma verify_nbf_future:
  "map_of cl ''nbf'' = Some (VNum r) \<Longrightarrow> 0 \<le> now \<Longrightarrow> now < int64_of_float r \<Longrightarrow> \<not> VerifyNotBefore cl now"
  by (simp add: VerifyNotBefore_def verify_time_claim_def verifyNbf_def)

lemma verify_iat_future:
  "map_of cl ''iat'' = Some (VNum r) \<Longrightarrow> 0 \<le> now \<Longrightarrow> now < int64_of_float r \<Longrightarrow> \<not> VerifyIssuedAt cl now"
  by (simp add: VerifyIssuedAt_def verify_time_claim_def verifyIat_def)

lemma future_eval:
  "int64_of_float 5000 = 5000"
  "VerifyExpiresAt [(''id'', VNum 1), (''iat'', VNum 5000)] now"
  "VerifyNotBefore [(''id'', VNum 1), (''iat'', VNum 5000)] now"
  "\<not> VerifyIssuedAt [(''id'', VNum 1), (''iat'', VNum 5000)] 1000"
  using int64_of_float_int [of 5000]
  by (simp_all add: VerifyExpiresAt_def VerifyNotBefore_def VerifyIssuedAt_def verify_time_claim_def verifyIat_def)

lemma validate_Malformed: "ConvertTokenUserClaim secret now Malformed = Inl InvalidAccessToken"
  by (simp add: ConvertTokenUserClaim_def jwt_Parse_def err_consts)

section \<open>Lemmas on issued tokens\<close>

lemma ConvertMap_claim_map: "ConvertMap c = Inr (claim_map c)"
  by (simp add: ConvertMap_def claim_map_def)

lemma json_view_strings_view: "json_view (strings_view ss) = strings_view ss"
  by (cases ss) (simp_all add: strings_view_def utf8_coerce_idem)

lemma json_view_unix_claim: "json_view (unix_claim e) = unix_claim e"
  by (simp add: unix_claim_def)

lemma coerce_keys:
  "utf8_coerce ''id'' = ''id''" "utf8_coerce ''roles'' = ''roles''"
  "utf8_coerce ''permissions'' = ''permissions''" "utf8_coerce ''exp'' = ''exp''"
  by (simp_all add: utf8_coerce_valid valid_utf8_ascii)

lemma SignedString_claim_map: "SignedString key (claim_map c) = Inr (signed_token key (claim_map c))"
  by (simp add: SignedString_def claim_map_def signed_token_def jwt_header_def Let_def
      coerce_keys json_view_strings_view)

lemma SignedString_exp:
  "SignedString key (AList.update ''exp'' (unix_claim e) (claim_map c))
   = Inr (signed_token key (claim_map c @ [(''exp'', unix_claim e)]))"
  by (simp add: SignedString_def claim_map_def signed_token_def jwt_header_def Let_def
      coerce_keys json_view_strings_view json_view_unix_claim)

lemma GenerateJwtToken_eq:
  "GenerateJwtToken secret now1 now2 c =
     Inr \<lparr>AccessToken = signed_token secret (claim_map c @ [(''exp'', unix_claim (now1 + 900))]),
          RefreshToken = signed_token secret (claim_map c @ [(''exp'', unix_claim (now2 + 604800))]),
          RefreshTokenExpires = now2 + 604800\<rparr>"
  by (simp add: GenerateJwtToken_def ConvertMap_claim_map SignedString_exp Let_def)

lemma GenerateJwtAccessTokenNeverExpired_eq:
  "GenerateJwtAccessTokenNeverExpired secret c = Inr (signed_token secret (claim_map c))"
  by (simp add: GenerateJwtAccessTokenNeverExpired_def ConvertMap_claim_map SignedString_claim_map)

lemma jwt_header_registered: "method_registered jwt_header"
  by (simp add: method_registered_def registered_methods_def jwt_header_def)

lemma validate_signed_token:
  "ConvertTokenUserClaim secret now (signed_token secret cl) =
     (if VerifyExpiresAt cl now \<and> VerifyIssuedAt cl now \<and> VerifyNotBefore cl now
      then NewUserClaim cl
      else if VerifyExpiresAt cl now \<and> VerifyNotBefore cl now then Inl InvalidAccessToken
      else Inl AccessTokenExpired)"
  using jwt_header_registered
  by (simp add: signed_token_def ConvertTokenUserClaim_Jwt rejection_def) (simp add: jwt_header_def)

lemma NewUserClaim_claim_map: "NewUserClaim (claim_map c) = round_trip c"
  by (simp add: round_trip_def ConvertMap_claim_map)

lemma NewUserClaim_claim_map_exp: "NewUserClaim (claim_map c @ [(''exp'', e)]) = round_trip c"
proof -
  have "filter (\<lambda>kv. known_field (fst kv)) (claim_map c @ [(''exp'', e)]) = claim_map c"
    by (simp add: claim_map_def known_field_def ascii_lower_def byte_in_def)
  then have "NewUserClaim (claim_map c @ [(''exp'', e)]) = NewUserClaim (claim_map c)"
    using NewUserClaim_known [of "claim_map c @ [(''exp'', e)]"] by simp
  then show ?thesis by (simp add: NewUserClaim_claim_map)
qed

lemma times_claim_map:
  "VerifyExpiresAt (claim_map c) now" "VerifyIssuedAt (claim_map c) now" "VerifyNotBefore (claim_map c) now"
  "map_of (claim_map c) ''exp'' = None"
  by (simp_all add: claim_map_def VerifyExpiresAt_def VerifyIssuedAt_def VerifyNotBefore_def
      verify_time_claim_def)

lemma times_claim_map_exp:
  assumes "0 < e" and "e < 2 ^ 53"
  shows "VerifyExpiresAt (claim_map c @ [(''exp'', unix_claim e)]) now = (now \<le> e)"
    and "VerifyIssuedAt (claim_map c @ [(''exp'', unix_claim e)]) now"
    and "VerifyNotBefore (claim_map c @ [(''exp'', unix_claim e)]) now"
proof -
  have u: "unix_claim e = VNum (of_int e)"
    using assms by (intro unix_claim_value) simp_all
  have i: "int64_of_float (of_int e) = e"
    using assms by (intro int64_of_float_int) simp_all
  show "VerifyExpiresAt (claim_map c @ [(''exp'', unix_claim e)]) now = (now \<le> e)"
    using assms i unfolding u
    by (simp add: claim_map_def VerifyExpiresAt_def verify_time_claim_def verifyExp_def)
  show "VerifyIssuedAt (claim_map c @ [(''exp'', unix_claim e)]) now"
    "VerifyNotBefore (claim_map c @ [(''exp'', unix_claim e)]) now"
    by (simp_all add: claim_map_def VerifyIssuedAt_def VerifyNotBefore_def verify_time_claim_def)
qed

lemma validate_expiring_token:
  assumes "0 < e" and "e < 2 ^ 53"
  shows "ConvertTokenUserClaim secret now (signed_token secret (claim_map c @ [(''exp'', unix_claim e)]))
         = (if now \<le> e then round_trip c else Inl AccessTokenExpired)"
  by (simp add: validate_signed_token times_claim_map_exp [OF assms] NewUserClaim_claim_map_exp)

lemma validate_never_expired:
  "ConvertTokenUserClaim secret now (signed_token secret (claim_map c)) = round_trip c"
  by (simp add: validate_signed_token times_claim_map NewUserClaim_claim_map)

lemma wire_claims_signed_token: "wire_claims (signed_token key cl) = cl"
  by (simp add: wire_claims_def signed_token_def)

lemma validated_claim:
  assumes "ConvertTokenUserClaim secret now token = Inr c"
  shows "NewUserClaim (wire_claims token) = Inr c"
proof (cases token)
  case Malformed
  with assms show ?thesis by (simp add: validate_Malformed)
next
  case (Jwt enc hdr cl sg)
  with assms show ?thesis
    by (simp add: ConvertTokenUserClaim_Jwt wire_claims_def split: if_splits)
qed

lemma RefreshAccessToken_valid:
  assumes "ConvertTokenUserClaim secret now refreshToken = Inr c"
    and "0 \<le> now1" and "now1 + 900 < 2 ^ 53"
  shows "\<exists>pair. GenerateJwtToken secret now1 now2 c = Inr pair
           \<and> RefreshAccessToken secret now now1 now2 refreshToken = Inr (AccessToken pair)
           \<and> (\<forall>t\<le>now1 + 900. ConvertTokenUserClaim secret t (AccessToken pair) = Inr c)"
proof -
  from assms(2,3) have e: "0 < now1 + 900" "now1 + 900 < 2 ^ 53" by simp_all
  have "round_trip c = Inr c"
    using validated_claim [OF assms(1)] by (rule NewUserClaim_fixpoint)
  then show ?thesis
    using assms(1)
    by (simp add: RefreshAccessToken_def GenerateJwtToken_eq validate_expiring_token [OF e])
qed

lemma refresh_token_eval:
  "ConvertTokenUserClaim ''secret'' t
     (signed_token ''secret''
        (claim_map \<lparr>Id = 42, Roles = Some [''admin''], Permissions = Some [''read'', ''write'']\<rparr>
           @ [(''exp'', unix_claim 605800)]))
   = (if t \<le> 605800
      then Inr \<lparr>Id = 42, Roles = Some [''admin''], Permissions = Some [''read'', ''write'']\<rparr>
      else Inl AccessTokenExpired)"
proof -
  have e: "(0::int) < 605800" "(605800::int) < 2 ^ 53" by simp_all
  show ?thesis
    using round_trip_valid [OF c42_valid] by (simp add: validate_expiring_token [OF e])
qed

lemma never_expired_c42:
  "ConvertTokenUserClaim ''secret'' now
     (signed_token ''secret''
        (claim_map \<lparr>Id = 42, Roles = Some [''admin''], Permissions = Some [''read'', ''write'']\<rparr>))
   = Inr \<lparr>Id = 42, Roles = Some [''admin''], Permissions = Some [''read'', ''write'']\<rparr>"
  using round_trip_valid [OF c42_valid] by (simp add: validate_never_expired)

section \<open>The claims\<close>

subsection \<open>C1: the round trip of a claim through the generic map\<close>

text \<open>
  C1 (as amended). For every claim whose id is below 2^53 (zero included) and whose role
  and permission names are well-formed UTF-8, \<open>ConvertMap\<close> followed by \<open>NewUserClaim\<close>
  returns a claim equal to the original in all three fields. The generic map holds the id
  as a \<open>float64\<close> and the names as JSON strings, so a larger id or an ill-formed name need
  not come back.
\<close>

theorem claim_round_trip:
  assumes "unat (Id c) < 2 ^ 53" and "names_valid (Roles c)" and "names_valid (Permissions c)"
  shows "round_trip c = Inr c"
  using assms by (rule round_trip_valid)

theorem claim_round_trip_witness:
  "round_trip \<lparr>Id = 42, Roles = Some [''admin''], Permissions = Some [''read'', ''write'']\<rparr>
   = Inr \<lparr>Id = 42, Roles = Some [''admin''], Permissions = Some [''read'', ''write'']\<rparr>"
  using claim_round_trip
    [of "\<lparr>Id = 42, Roles = Some [''admin''], Permissions = Some [''read'', ''write'']\<rparr>"]
  by (simp add: names_valid_def valid_utf8_ascii)

text \<open>
  The claim as stated fails at the id 2^53 + 1, which the map holds as the float 2^53: the
  decoded claim has the id 9007199254740992.
\<close>

theorem claim_round_trip_counterexample:
  "round_trip \<lparr>Id = 9007199254740993, Roles = Some [''admin''], Permissions = Some [''read'']\<rparr>
   \<noteq> Inr \<lparr>Id = 9007199254740993, Roles = Some [''admin''], Permissions = Some [''read'']\<rparr>"
  by (simp add: round_trip_eq uint_of_float_def f64_round_eval shortest_decimal_eval)

subsection \<open>C2: the lifetime of an access token\<close>

text \<open>
  C2 (as amended). Let the access token be issued when the clock reads \<open>t0\<close> (Unix seconds,
  at or after the epoch and below 2^53 - 900) for a claim whose id is below 2^53. It
  validates at every clock reading up to and including \<open>t0 + 900\<close>, and validation fails
  with \<open>AccessTokenExpired\<close> at every reading after \<open>t0 + 900\<close>: the library compares
  \<open>now \<le> exp\<close>, so the last second of validity is \<open>t0 + 900\<close> itself.
\<close>

theorem access_token_lifetime:
  assumes "0 \<le> t0" and "t0 + 900 < 2 ^ 53" and "unat (Id c) < 2 ^ 53"
  shows "\<exists>tok. GenerateJwtToken secret t0 t1 c = Inr tok
           \<and> (\<forall>now. (now \<le> t0 + 900 \<longrightarrow>
                        (\<exists>c'. ConvertTokenUserClaim secret now (AccessToken tok) = Inr c'))
                    \<and> (t0 + 900 < now \<longrightarrow>
                        ConvertTokenUserClaim secret now (AccessToken tok) = Inl AccessTokenExpired))"
proof -
  from assms have e: "0 < t0 + 900" "t0 + 900 < 2 ^ 53" by simp_all
  show ?thesis
    using round_trip_small [OF assms(3)]
    by (simp add: GenerateJwtToken_eq validate_expiring_token [OF e])
qed

theorem access_token_lifetime_witness:
  "\<exists>tok. GenerateJwtToken ''secret'' 1000 1000
            \<lparr>Id = 42, Roles = Some [''admin''], Permissions = Some [''read'', ''write'']\<rparr> = Inr tok
         \<and> (\<exists>c'. ConvertTokenUserClaim ''secret'' 1900 (AccessToken tok) = Inr c')
         \<and> ConvertTokenUserClaim ''secret'' 1901 (AccessToken tok) = Inl AccessTokenExpired"
proof -
  from access_token_lifetime [of 1000
      "\<lparr>Id = 42, Roles = Some [''admin''], Permissions = Some [''read'', ''write'']\<rparr>" "''secret''" 1000]
  obtain tok where g: "GenerateJwtToken ''secret'' 1000 1000
            \<lparr>Id = 42, Roles = Some [''admin''], Permissions = Some [''read'', ''write'']\<rparr> = Inr tok"
    and a: "\<And>now. now \<le> 1900 \<Longrightarrow> \<exists>c'. ConvertTokenUserClaim ''secret'' now (AccessToken tok) = Inr c'"
    and b: "\<And>now. 1900 < now \<Longrightarrow> ConvertTokenUserClaim ''secret'' now (AccessToken tok) = Inl AccessTokenExpired"
    by auto
  from g a [of 1900] b [of 1901] show ?thesis by simp
qed

text \<open>
  The claim as stated fails at the boundary: a token issued at 1000 still validates at
  1900, where the claim demands \<open>AccessTokenExpired\<close>.
\<close>

theorem access_token_lifetime_counterexample:
  "(case GenerateJwtToken ''secret'' 1000 1000
           \<lparr>Id = 42, Roles = Some [''admin''], Permissions = Some [''read'', ''write'']\<rparr> of
      Inl err \<Rightarrow> Inl err
    | Inr tok \<Rightarrow> ConvertTokenUserClaim ''secret'' 1900 (AccessToken tok))
   = Inr \<lparr>Id = 42, Roles = Some [''admin''], Permissions = Some [''read'', ''write'']\<rparr>"
proof -
  have e: "(0::int) < 1900" "(1900::int) < 2 ^ 53" by simp_all
  show ?thesis
    using round_trip_valid [OF c42_valid]
    by (simp add: GenerateJwtToken_eq validate_expiring_token [OF e])
qed

subsection \<open>C3: a signature that does not verify\<close>

text \<open>
  C3 (as amended). A token whose signature is not the HMAC-SHA256 of its signing input
  under the process secret is always rejected, and never decoded. The library validates the
  time claims before it verifies the signature and collects both results, and the code
  reads the time bits first: the error is \<open>AccessTokenExpired\<close> when the header names a
  registered method and the expiry has elapsed or the not-before time lies ahead, and
  \<open>InvalidAccessToken\<close> in every other case.
\<close>

theorem bad_signature:
  assumes "sg \<noteq> Mac ''HS256'' secret enc hdr cl"
  shows "ConvertTokenUserClaim secret now (Jwt enc hdr cl sg) =
           Inl (if method_registered hdr \<and> \<not> (VerifyExpiresAt cl now \<and> VerifyNotBefore cl now)
                then AccessTokenExpired else InvalidAccessToken)"
  using assms by (simp add: ConvertTokenUserClaim_Jwt rejection_def)

theorem bad_signature_witness:
  "Opaque 7 \<noteq> Mac ''HS256'' ''secret'' 0 [(''alg'', VStr ''HS256'')] [(''id'', VNum 1), (''exp'', VNum 2000)]
   \<and> ConvertTokenUserClaim ''secret'' 1000
        (Jwt 0 [(''alg'', VStr ''HS256'')] [(''id'', VNum 1), (''exp'', VNum 2000)] (Opaque 7))
      = Inl InvalidAccessToken"
  using bad_signature [of "Opaque 7" "''secret''" 0 "[(''alg'', VStr ''HS256'')]"
      "[(''id'', VNum 1), (''exp'', VNum 2000)]" 1000]
  by (simp add: time_eval)

text \<open>
  The claim as stated fails for a token with a foreign signature whose expiry has elapsed:
  the result is \<open>AccessTokenExpired\<close>.
\<close>

theorem bad_signature_counterexample:
  "Opaque 7 \<noteq> Mac ''HS256'' ''secret'' 0 [(''alg'', VStr ''HS256'')] [(''id'', VNum 1), (''exp'', VNum 2000)]
   \<and> ConvertTokenUserClaim ''secret'' 3000
        (Jwt 0 [(''alg'', VStr ''HS256'')] [(''id'', VNum 1), (''exp'', VNum 2000)] (Opaque 7))
      = Inl AccessTokenExpired"
  by (simp add: ConvertTokenUserClaim_Jwt rejection_def time_eval hs256_registered)

subsection \<open>C4: a signing method other than HMAC-SHA256\<close>

text \<open>
  C4 (as amended). A structurally valid token whose header does not declare \<open>HS256\<close> is
  always rejected, whatever its signature and payload. The error is \<open>InvalidAccessToken\<close>
  whenever its time claims pass (expiry not elapsed, not-before not ahead) or its method is
  unknown to the library; for a registered method with a failing time claim it is
  \<open>AccessTokenExpired\<close>.
\<close>

theorem other_algorithm:
  assumes "map_of hdr ''alg'' \<noteq> Some (VStr ''HS256'')"
  shows "ConvertTokenUserClaim secret now (Jwt enc hdr cl sg) =
           Inl (if method_registered hdr \<and> \<not> (VerifyExpiresAt cl now \<and> VerifyNotBefore cl now)
                then AccessTokenExpired else InvalidAccessToken)"
  using assms by (simp add: ConvertTokenUserClaim_Jwt rejection_def)

theorem other_algorithm_witness:
  "map_of [(''alg'', VStr ''none'')] ''alg'' \<noteq> Some (VStr ''HS256'')
   \<and> ConvertTokenUserClaim ''secret'' 1000
        (Jwt 0 [(''alg'', VStr ''none'')] [(''id'', VNum 1), (''exp'', VNum 2000)] (Opaque 0))
      = Inl InvalidAccessToken"
  using other_algorithm [of "[(''alg'', VStr ''none'')]" "''secret''" 1000 0
      "[(''id'', VNum 1), (''exp'', VNum 2000)]" "Opaque 0"]
  by (simp add: time_eval)

text \<open>
  The claim as stated fails for an unsigned token (\<open>alg\<close> \<open>none\<close>) whose expiry has elapsed.
\<close>

theorem other_algorithm_counterexample:
  "map_of [(''alg'', VStr ''none'')] ''alg'' \<noteq> Some (VStr ''HS256'')
   \<and> ConvertTokenUserClaim ''secret'' 3000
        (Jwt 0 [(''alg'', VStr ''none'')] [(''id'', VNum 1), (''exp'', VNum 2000)] (Opaque 0))
      = Inl AccessTokenExpired"
  by (simp add: ConvertTokenUserClaim_Jwt rejection_def time_eval none_registered)

subsection \<open>C5: fields outside the schema, a missing id, an id of the wrong shape\<close>

text \<open>
  C5 (as amended). \<open>NewUserClaim\<close> ignores every entry of the map whose key addresses none
  of the fields \<open>id\<close>, \<open>roles\<close>, \<open>permissions\<close> (keys are matched without regard to case). A
  map with no \<open>id\<close> entry, or with a \<open>null\<close> one, is no error: it decodes as the same map
  with the id 0. An \<open>id\<close> that is a string, a boolean, an array, an object or a negative or
  fractional number fails with the JSON unmarshal error.
\<close>

theorem NewUserClaim_schema:
  "NewUserClaim (filter (\<lambda>kv. known_field (fst kv)) m) = NewUserClaim m
   \<and> ((\<forall>kv\<in>set m. \<not> fold_eq ''id'' (fst kv)) \<longrightarrow>
        NewUserClaim m = NewUserClaim ((''id'', VNum 0) # m)
        \<and> NewUserClaim ((''id'', VNil) # m) = NewUserClaim m)
   \<and> (map_of m ''id'' = Some v \<and> ill_shaped_id v \<longrightarrow> NewUserClaim m = Inl JSONUnmarshalError)"
  by (simp add: NewUserClaim_known NewUserClaim_no_id NewUserClaim_ill_shaped)

theorem NewUserClaim_schema_witness:
  "NewUserClaim (filter (\<lambda>kv. known_field (fst kv)) [(''roles'', VArr [VStr ''admin'']), (''sub'', VStr ''x'')])
     = Inr \<lparr>Id = 0, Roles = Some [''admin''], Permissions = None\<rparr>
   \<and> NewUserClaim [(''id'', VNum 0), (''roles'', VArr [VStr ''admin'']), (''sub'', VStr ''x'')]
     = Inr \<lparr>Id = 0, Roles = Some [''admin''], Permissions = None\<rparr>
   \<and> NewUserClaim [(''id'', VNil), (''roles'', VArr [VStr ''admin'']), (''sub'', VStr ''x'')]
     = Inr \<lparr>Id = 0, Roles = Some [''admin''], Permissions = None\<rparr>
   \<and> NewUserClaim [(''id'', VStr ''42'')] = Inl JSONUnmarshalError"
  using NewUserClaim_schema [of "[(''roles'', VArr [VStr ''admin'']), (''sub'', VStr ''x'')]" VNil]
    NewUserClaim_schema [of "[(''id'', VStr ''42'')]" "VStr ''42''"]
  by (simp add: NewUserClaim_eval ascii_lower_def byte_in_def)

text \<open>
  The claim as stated fails for a map without \<open>id\<close>: the decoder returns a claim with the
  id 0 and no error.
\<close>

theorem NewUserClaim_schema_counterexample:
  "NewUserClaim [(''roles'', VArr [VStr ''admin''])]
   = Inr \<lparr>Id = 0, Roles = Some [''admin''], Permissions = None\<rparr>"
  by (simp add: NewUserClaim_def field_values_def ascii_lower_def byte_in_def coerce_admin)

subsection \<open>C6: refreshing does not rotate the refresh token\<close>

text \<open>
  C6. Let the refresh token validate to the claim \<open>c\<close> when \<open>RefreshAccessToken\<close> is called,
  and again at a later call (the clocks of the issuer at or after the epoch and below
  2^53 - 900). Both validations give the same claim; each call returns the access token of
  the pair \<open>GenerateJwtToken\<close> makes for \<open>c\<close> and nothing else of that pair; and each returned
  token validates to \<open>c\<close> at every clock reading up to its own expiry. Validation has no
  state: nothing a call does changes what the refresh token validates to.
\<close>

theorem refresh_repeatable:
  assumes "ConvertTokenUserClaim secret t rt = Inr c"
    and "ConvertTokenUserClaim secret t' rt = Inr c'"
    and "0 \<le> n1" and "n1 + 900 < 2 ^ 53" and "0 \<le> n1'" and "n1' + 900 < 2 ^ 53"
  shows "c' = c
       \<and> (\<exists>pair pair'.
             GenerateJwtToken secret n1 n2 c = Inr pair
           \<and> RefreshAccessToken secret t n1 n2 rt = Inr (AccessToken pair)
           \<and> (\<forall>now\<le>n1 + 900. ConvertTokenUserClaim secret now (AccessToken pair) = Inr c)
           \<and> GenerateJwtToken secret n1' n2' c = Inr pair'
           \<and> RefreshAccessToken secret t' n1' n2' rt = Inr (AccessToken pair')
           \<and> (\<forall>now\<le>n1' + 900. ConvertTokenUserClaim secret now (AccessToken pair') = Inr c))"
proof -
  have eq: "c' = c"
    using validated_claim [OF assms(1)] validated_claim [OF assms(2)] by simp
  from RefreshAccessToken_valid [OF assms(1) assms(3) assms(4), of n2]
  obtain pair where p: "GenerateJwtToken secret n1 n2 c = Inr pair"
    "RefreshAccessToken secret t n1 n2 rt = Inr (AccessToken pair)"
    "\<forall>now\<le>n1 + 900. ConvertTokenUserClaim secret now (AccessToken pair) = Inr c"
    by blast
  from RefreshAccessToken_valid [OF assms(2) assms(5) assms(6), of n2'] eq
  obtain pair' where p': "GenerateJwtToken secret n1' n2' c = Inr pair'"
    "RefreshAccessToken secret t' n1' n2' rt = Inr (AccessToken pair')"
    "\<forall>now\<le>n1' + 900. ConvertTokenUserClaim secret now (AccessToken pair') = Inr c"
    by blast
  from eq p p' show ?thesis by blast
qed

theorem refresh_repeatable_witness:
  "(case RefreshAccessToken ''secret'' 2000 2000 2000
           (signed_token ''secret''
              (claim_map \<lparr>Id = 42, Roles = Some [''admin''], Permissions = Some [''read'', ''write'']\<rparr>
                 @ [(''exp'', unix_claim 605800)])) of
      Inl err \<Rightarrow> Inl err
    | Inr accessToken \<Rightarrow> ConvertTokenUserClaim ''secret'' 2000 accessToken)
   = Inr \<lparr>Id = 42, Roles = Some [''admin''], Permissions = Some [''read'', ''write'']\<rparr>
   \<and> (case RefreshAccessToken ''secret'' 3000 3000 3000
           (signed_token ''secret''
              (claim_map \<lparr>Id = 42, Roles = Some [''admin''], Permissions = Some [''read'', ''write'']\<rparr>
                 @ [(''exp'', unix_claim 605800)])) of
      Inl err \<Rightarrow> Inl err
    | Inr accessToken \<Rightarrow> ConvertTokenUserClaim ''secret'' 3000 accessToken)
   = Inr \<lparr>Id = 42, Roles = Some [''admin''], Permissions = Some [''read'', ''write'']\<rparr>"
proof -
  let ?c = "\<lparr>Id = 42, Roles = Some [''admin''], Permissions = Some [''read'', ''write'']\<rparr>"
  let ?rt = "signed_token ''secret'' (claim_map ?c @ [(''exp'', unix_claim 605800)])"
  have v: "ConvertTokenUserClaim ''secret'' 2000 ?rt = Inr ?c"
    and v': "ConvertTokenUserClaim ''secret'' 3000 ?rt = Inr ?c"
    by (simp_all add: refresh_token_eval)
  have n: "(0::int) \<le> 2000" "(2000::int) + 900 < 2 ^ 53"
    and n': "(0::int) \<le> 3000" "(3000::int) + 900 < 2 ^ 53"
    by simp_all
  from refresh_repeatable [OF v v' n n', of 2000 3000]
  have "\<exists>pair pair'.
           GenerateJwtToken ''secret'' 2000 2000 ?c = Inr pair
         \<and> RefreshAccessToken ''secret'' 2000 2000 2000 ?rt = Inr (AccessToken pair)
         \<and> (\<forall>now\<le>2000 + 900. ConvertTokenUserClaim ''secret'' now (AccessToken pair) = Inr ?c)
         \<and> GenerateJwtToken ''secret'' 3000 3000 ?c = Inr pair'
         \<and> RefreshAccessToken ''secret'' 3000 3000 3000 ?rt = Inr (AccessToken pair')
         \<and> (\<forall>now\<le>3000 + 900. ConvertTokenUserClaim ''secret'' now (AccessToken pair') = Inr ?c)"
    by (rule conjunct2)
  then obtain pair where "\<exists>pair'.
           GenerateJwtToken ''secret'' 2000 2000 ?c = Inr pair
         \<and> RefreshAccessToken ''secret'' 2000 2000 2000 ?rt = Inr (AccessToken pair)
         \<and> (\<forall>now\<le>2000 + 900. ConvertTokenUserClaim ''secret'' now (AccessToken pair) = Inr ?c)
         \<and> GenerateJwtToken ''secret'' 3000 3000 ?c = Inr pair'
         \<and> RefreshAccessToken ''secret'' 3000 3000 3000 ?rt = Inr (AccessToken pair')
         \<and> (\<forall>now\<le>3000 + 900. ConvertTokenUserClaim ''secret'' now (AccessToken pair') = Inr ?c)" ..
  then obtain pair' where all:
          "GenerateJwtToken ''secret'' 2000 2000 ?c = Inr pair
         \<and> RefreshAccessToken ''secret'' 2000 2000 2000 ?rt = Inr (AccessToken pair)
         \<and> (\<forall>now\<le>2000 + 900. ConvertTokenUserClaim ''secret'' now (AccessToken pair) = Inr ?c)
         \<and> GenerateJwtToken ''secret'' 3000 3000 ?c = Inr pair'
         \<and> RefreshAccessToken ''secret'' 3000 3000 3000 ?rt = Inr (AccessToken pair')
         \<and> (\<forall>now\<le>3000 + 900. ConvertTokenUserClaim ''secret'' now (AccessToken pair') = Inr ?c)" ..
  then have g: "GenerateJwtToken ''secret'' 2000 2000 ?c = Inr pair"
    and r: "RefreshAccessToken ''secret'' 2000 2000 2000 ?rt = Inr (AccessToken pair)"
    and a: "\<forall>now\<le>2000 + 900. ConvertTokenUserClaim ''secret'' now (AccessToken pair) = Inr ?c"
    and r': "RefreshAccessToken ''secret'' 3000 3000 3000 ?rt = Inr (AccessToken pair')"
    and a': "\<forall>now\<le>3000 + 900. ConvertTokenUserClaim ''secret'' now (AccessToken pair') = Inr ?c"
    by simp_all
  from a a' have "ConvertTokenUserClaim ''secret'' 2000 (AccessToken pair) = Inr ?c"
    and "ConvertTokenUserClaim ''secret'' 3000 (AccessToken pair') = Inr ?c"
    by simp_all
  with r r' show ?thesis
    by simp
qed

subsection \<open>C7: the token that never expires\<close>

text \<open>
  C7 (as amended). \<open>GenerateJwtAccessTokenNeverExpired\<close> always returns a token, and the token
  carries no \<open>exp\<close> claim. For a claim whose id is below 2^53 and whose names are well-formed
  UTF-8, validating the token succeeds at every clock reading and returns the original
  claim.
\<close>

theorem never_expiring_token:
  assumes "unat (Id c) < 2 ^ 53" and "names_valid (Roles c)" and "names_valid (Permissions c)"
  shows "\<exists>tok. GenerateJwtAccessTokenNeverExpired secret c = Inr tok
           \<and> map_of (wire_claims tok) ''exp'' = None
           \<and> (\<forall>now. ConvertTokenUserClaim secret now tok = Inr c)"
  using round_trip_valid [OF assms]
  by (simp add: GenerateJwtAccessTokenNeverExpired_eq validate_never_expired
      wire_claims_signed_token times_claim_map)

theorem never_expiring_token_witness:
  "\<exists>tok. GenerateJwtAccessTokenNeverExpired ''secret''
            \<lparr>Id = 42, Roles = Some [''admin''], Permissions = Some [''read'', ''write'']\<rparr> = Inr tok
         \<and> map_of (wire_claims tok) ''exp'' = None
         \<and> ConvertTokenUserClaim ''secret'' 4102444800 tok
            = Inr \<lparr>Id = 42, Roles = Some [''admin''], Permissions = Some [''read'', ''write'']\<rparr>"
  using never_expiring_token [OF c42_valid, of "''secret''"] by auto

text \<open>
  The claim as stated fails for the id 2^64 - 1: the token carries the float 2^64, which
  does not decode into the \<open>uint\<close> field, and validation returns the JSON unmarshal error.
\<close>

theorem never_expiring_token_counterexample:
  "(case GenerateJwtAccessTokenNeverExpired ''secret''
           \<lparr>Id = 18446744073709551615, Roles = None, Permissions = None\<rparr> of
      Inl err \<Rightarrow> Inl err
    | Inr tok \<Rightarrow> ConvertTokenUserClaim ''secret'' 0 tok)
   = Inl JSONUnmarshalError"
  by (simp add: GenerateJwtAccessTokenNeverExpired_eq validate_never_expired round_trip_max)

subsection \<open>C8: the guard scenario\<close>

text \<open>
  C8. A request without \<open>Authorization\<close> header passes \<open>JwtToken\<close> unchanged, and with an empty
  claim slot \<open>CheckAuth\<close> answers it with status 401. A request with the header
  \<open>Bearer\<close>, a space and a token that validates passes both middlewares and reaches the
  handler with the decoded claim in its context. A request whose credential fails
  validation is answered by \<open>JwtToken\<close> with status 401 and the text of the error.
\<close>

theorem guard_scenario:
  "(Authorization c = [] \<longrightarrow>
      middleware_JwtToken decode secret now next c = next c
      \<and> (user_claim c = None \<longrightarrow>
           middleware_JwtToken decode secret now (CheckAuth next) c
           = Inl (HTTPError 401 ''Please provide valid credentials'')))
   \<and> (Authorization c = ''Bearer '' @ tok
       \<and> tok \<noteq> [] \<and> hd tok \<noteq> CHR '' '' \<and> last tok \<noteq> CHR '' ''
       \<and> ConvertTokenUserClaim secret now (decode tok) = Inr claim \<longrightarrow>
      middleware_JwtToken decode secret now (CheckAuth next) c = next (SetUserClaim c claim)
      \<and> GetUserClaim (SetUserClaim c claim) = Inr claim)
   \<and> (Authorization c \<noteq> []
       \<and> ConvertTokenUserClaim secret now (decode (bearer_token (Authorization c))) = Inl err \<longrightarrow>
      middleware_JwtToken decode secret now next c = Inl (HTTPError 401 (Error err)))"
  by (auto simp: middleware_JwtToken_def CheckAuth_def GetUserClaim_def SetUserClaim_def Let_def
      StatusUnauthorized_def bearer_token_Bearer
      simp del: append.simps)

theorem guard_scenario_witness:
  "middleware_JwtToken
      (\<lambda>s. if s = ''eyJ.eyJ.c2ln''
           then signed_token ''secret''
                  (claim_map \<lparr>Id = 42, Roles = Some [''admin''], Permissions = Some [''read'', ''write'']\<rparr>)
           else Malformed)
      ''secret'' 1000 (CheckAuth (\<lambda>c. Inr (user_claim c)))
      \<lparr>Authorization = [], RequestURI = ''/members'', user_claim = None\<rparr>
    = Inl (HTTPError 401 ''Please provide valid credentials'')
   \<and> middleware_JwtToken
      (\<lambda>s. if s = ''eyJ.eyJ.c2ln''
           then signed_token ''secret''
                  (claim_map \<lparr>Id = 42, Roles = Some [''admin''], Permissions = Some [''read'', ''write'']\<rparr>)
           else Malformed)
      ''secret'' 1000 (CheckAuth (\<lambda>c. Inr (user_claim c)))
      \<lparr>Authorization = ''Bearer eyJ.eyJ.c2ln'', RequestURI = ''/members'', user_claim = None\<rparr>
    = Inr (Some \<lparr>Id = 42, Roles = Some [''admin''], Permissions = Some [''read'', ''write'']\<rparr>)
   \<and> middleware_JwtToken
      (\<lambda>s. if s = ''eyJ.eyJ.c2ln''
           then signed_token ''secret''
                  (claim_map \<lparr>Id = 42, Roles = Some [''admin''], Permissions = Some [''read'', ''write'']\<rparr>)
           else Malformed)
      ''secret'' 1000 (CheckAuth (\<lambda>c. Inr (user_claim c)))
      \<lparr>Authorization = ''Bearer garbage'', RequestURI = ''/members'', user_claim = None\<rparr>
    = Inl (HTTPError 401 ''invalid access token'')"
proof -
  let ?cl = "\<lparr>Id = 42, Roles = Some [''admin''], Permissions = Some [''read'', ''write'']\<rparr>"
  let ?dec = "\<lambda>s. if s = ''eyJ.eyJ.c2ln'' then signed_token ''secret'' (claim_map ?cl) else Malformed"
  let ?h = "CheckAuth (\<lambda>c. Inr (user_claim c) :: http_error + UserClaim option)"
  have b: "bearer_token ''Bearer garbage'' = ''garbage''"
    using bearer_token_Bearer [of "''garbage''"] by simp
  have 1: "middleware_JwtToken ?dec ''secret'' 1000 ?h
             \<lparr>Authorization = [], RequestURI = ''/members'', user_claim = None\<rparr>
           = Inl (HTTPError 401 ''Please provide valid credentials'')"
    using guard_scenario [of "\<lparr>Authorization = [], RequestURI = ''/members'', user_claim = None\<rparr>"
        ?dec "''secret''" 1000 "\<lambda>c. Inr (user_claim c)"]
    by simp
  have 2: "middleware_JwtToken ?dec ''secret'' 1000 ?h
             \<lparr>Authorization = ''Bearer eyJ.eyJ.c2ln'', RequestURI = ''/members'', user_claim = None\<rparr>
           = Inr (Some ?cl)"
    using guard_scenario [of
        "\<lparr>Authorization = ''Bearer eyJ.eyJ.c2ln'', RequestURI = ''/members'', user_claim = None\<rparr>"
        ?dec "''secret''" 1000 "\<lambda>c. Inr (user_claim c)" "''eyJ.eyJ.c2ln''" ?cl]
    by (simp add: never_expired_c42 SetUserClaim_def)
  have 3: "middleware_JwtToken ?dec ''secret'' 1000 ?h
             \<lparr>Authorization = ''Bearer garbage'', RequestURI = ''/members'', user_claim = None\<rparr>
           = Inl (HTTPError 401 ''invalid access token'')"
    using guard_scenario [of
        "\<lparr>Authorization = ''Bearer garbage'', RequestURI = ''/members'', user_claim = None\<rparr>"
        ?dec "''secret''" 1000 "CheckAuth (\<lambda>c. Inr (user_claim c))" _ _ InvalidAccessToken]
    by (simp add: b validate_Malformed)
  from 1 2 3 show ?thesis by simp
qed

subsection \<open>C9: a header without Bearer\<close>

text \<open>
  C9. When the \<open>Authorization\<close> header is not empty and \<open>Bearer\<close> does not occur in it,
  \<open>JwtToken\<close> hands the whole header, unchanged, to the validator, and the outcome is the
  validator's alone: a bare token that validates authenticates the request.
\<close>

theorem bare_token:
  assumes "Authorization c \<noteq> []" and "strings_Index (Authorization c) ''Bearer'' < 0"
  shows "middleware_JwtToken decode secret now next c =
           (case ConvertTokenUserClaim secret now (decode (Authorization c)) of
              Inl err \<Rightarrow> Inl (HTTPError 401 (Error err))
            | Inr claim \<Rightarrow> next (SetUserClaim c claim))"
  using assms
  by (simp add: middleware_JwtToken_def Let_def bearer_token_none StatusUnauthorized_def
      split: sum.splits)

theorem bare_token_witness:
  "middleware_JwtToken
      (\<lambda>s. if s = ''eyJ.eyJ.c2ln''
           then signed_token ''secret''
                  (claim_map \<lparr>Id = 42, Roles = Some [''admin''], Permissions = Some [''read'', ''write'']\<rparr>)
           else Malformed)
      ''secret'' 1000 (\<lambda>c. Inr (user_claim c))
      \<lparr>Authorization = ''eyJ.eyJ.c2ln'', RequestURI = ''/members'', user_claim = None\<rparr>
    = Inr (Some \<lparr>Id = 42, Roles = Some [''admin''], Permissions = Some [''read'', ''write'']\<rparr>)"
  using bare_token [of
      "\<lparr>Authorization = ''eyJ.eyJ.c2ln'', RequestURI = ''/members'', user_claim = None\<rparr>"
      "\<lambda>s. if s = ''eyJ.eyJ.c2ln''
           then signed_token ''secret''
                  (claim_map \<lparr>Id = 42, Roles = Some [''admin''], Permissions = Some [''read'', ''write'']\<rparr>)
           else Malformed"
      "''secret''" 1000 "\<lambda>c. Inr (user_claim c)"]
  by (simp add: never_expired_c42 SetUserClaim_def)

subsection \<open>C10: a token that is not yet valid\<close>

text \<open>
  C10 (as amended). For a correctly signed \<open>HS256\<close> token and a clock at or after the epoch:
  a not-before time ahead of the clock is reported as \<open>AccessTokenExpired\<close>, the error of an
  elapsed token; an issued-at time ahead of the clock, with the expiry and the not-before
  time passing, is reported as \<open>InvalidAccessToken\<close> (the code's mask holds the bits of
  expiry and not-before only).
\<close>

theorem premature_token:
  assumes "map_of hdr ''alg'' = Some (VStr ''HS256'')"
    and "sg = Mac ''HS256'' secret enc hdr cl"
    and "0 \<le> now" and "now < int64_of_float r"
  shows "(map_of cl ''nbf'' = Some (VNum r) \<longrightarrow>
            ConvertTokenUserClaim secret now (Jwt enc hdr cl sg) = Inl AccessTokenExpired)
       \<and> (map_of cl ''iat'' = Some (VNum r) \<and> VerifyExpiresAt cl now \<and> VerifyNotBefore cl now \<longrightarrow>
            ConvertTokenUserClaim secret now (Jwt enc hdr cl sg) = Inl InvalidAccessToken)"
proof -
  from assms(1) have reg: "method_registered hdr"
    by (simp add: method_registered_def registered_methods_def)
  show ?thesis
    using assms reg
    by (auto simp: ConvertTokenUserClaim_Jwt rejection_def dest: verify_nbf_future verify_iat_future)
qed

theorem premature_token_witness:
  "ConvertTokenUserClaim ''secret'' 1000
     (Jwt 0 [(''alg'', VStr ''HS256'')] [(''id'', VNum 1), (''nbf'', VNum 5000)]
        (Mac ''HS256'' ''secret'' 0 [(''alg'', VStr ''HS256'')] [(''id'', VNum 1), (''nbf'', VNum 5000)]))
     = Inl AccessTokenExpired
   \<and> ConvertTokenUserClaim ''secret'' 1000
     (Jwt 0 [(''alg'', VStr ''HS256'')] [(''id'', VNum 1), (''iat'', VNum 5000)]
        (Mac ''HS256'' ''secret'' 0 [(''alg'', VStr ''HS256'')] [(''id'', VNum 1), (''iat'', VNum 5000)]))
     = Inl InvalidAccessToken"
  using premature_token [of "[(''alg'', VStr ''HS256'')]" _ "''secret''" 0
      "[(''id'', VNum 1), (''nbf'', VNum 5000)]" 1000 5000, OF _ refl]
    premature_token [of "[(''alg'', VStr ''HS256'')]" _ "''secret''" 0
      "[(''id'', VNum 1), (''iat'', VNum 5000)]" 1000 5000, OF _ refl]
  by (simp add: future_eval)

text \<open>
  The claim as stated fails for a signed token whose issued-at time lies ahead: the result
  is \<open>InvalidAccessToken\<close>, not the error of an expired token.
\<close>

theorem premature_token_counterexample:
  "ConvertTokenUserClaim ''secret'' 1000
     (Jwt 0 [(''alg'', VStr ''HS256'')] [(''id'', VNum 1), (''iat'', VNum 5000)]
        (Mac ''HS256'' ''secret'' 0 [(''alg'', VStr ''HS256'')] [(''id'', VNum 1), (''iat'', VNum 5000)]))
     = Inl InvalidAccessToken"
  by (simp add: ConvertTokenUserClaim_Jwt rejection_def future_eval)

end
